theory Spec2Isabelle
  imports Main "HOL-Library.Sublist"
begin

section \<open>Strings and time\<close>

text \<open>
  JavaScript strings are modelled as \<^typ>\<open>string\<close> holding the UTF-8 bytes of the text.
  For well-formed text \<open>startsWith\<close> and \<open>includes\<close> agree on UTF-8 bytes and on
  UTF-16 code units, since UTF-8 is self-synchronising. The emoji the source writes into
  its messages are given as byte lists.

  \<open>new Date()\<close>, \<open>Date.now()\<close> and SQLite's \<open>CURRENT_TIMESTAMP\<close> read a clock; every
  operation of the model takes the clock reading \<open>now\<close> (milliseconds) as an argument.
\<close>

type_synonym timestamp = int

definition emoji_robot :: string where
  "emoji_robot = [CHR 0xF0, CHR 0x9F, CHR 0xA4, CHR 0x96]"

definition emoji_rocket :: string where
  "emoji_rocket = [CHR 0xF0, CHR 0x9F, CHR 0x9A, CHR 0x80]"

definition emoji_party :: string where
  "emoji_party = [CHR 0xF0, CHR 0x9F, CHR 0x8E, CHR 0x89]"

definition emoji_eyes :: string where
  "emoji_eyes = [CHR 0xF0, CHR 0x9F, CHR 0x91, CHR 0x80]"

definition emoji_cycle :: string where
  "emoji_cycle = [CHR 0xF0, CHR 0x9F, CHR 0x94, CHR 0x84]"

definition emoji_cross :: string where
  "emoji_cross = [CHR 0xE2, CHR 0x9D, CHR 0x8C]"

definition emoji_check :: string where
  "emoji_check = [CHR 0xE2, CHR 0x9C, CHR 0x85]"

definition newline :: string where
  "newline = [CHR 0x0A]"

definition backtick :: string where
  "backtick = [CHR 0x60]"

definition dquote :: string where
  "dquote = [CHR 0x22]"

definition arrow :: string where
  "arrow = [CHR 0xE2, CHR 0x86, CHR 0x92]"

text \<open>\<open>String.prototype.startsWith\<close>.\<close>

definition startsWith :: "string \<Rightarrow> string \<Rightarrow> bool" where
  "startsWith s p = prefix p s"

text \<open>\<open>String.prototype.includes\<close>: some suffix of \<open>s\<close> starts with \<open>sub\<close>.\<close>

fun includes_str :: "string \<Rightarrow> string \<Rightarrow> bool" where
  "includes_str [] sub = (sub = [])"
| "includes_str (c # cs) sub = (prefix sub (c # cs) \<or> includes_str cs sub)"

text \<open>
  \<open>String.prototype.toLowerCase\<close> on the ASCII letters; every other byte is kept.
  (No byte of a multi-byte UTF-8 sequence is an ASCII letter, so the keywords of the
  review gate, which are ASCII, are matched as in the source for ASCII and Latin text.)
\<close>

definition lower_char :: "char \<Rightarrow> char" where
  "lower_char c =
     (case map_of (zip ''ABCDEFGHIJKLMNOPQRSTUVWXYZ'' ''abcdefghijklmnopqrstuvwxyz'') c of
        None \<Rightarrow> c
      | Some l \<Rightarrow> l)"

definition toLowerCase :: "string \<Rightarrow> string" where
  "toLowerCase s = map lower_char s"

text \<open>A number inside a template string: its decimal digits, with a sign when negative.\<close>

definition digit_char :: "nat \<Rightarrow> char" where
  "digit_char d = ''0123456789'' ! d"

fun digits_of :: "nat \<Rightarrow> string" where
  "digits_of n =
     (if n < 10 then [digit_char n] else digits_of (n div 10) @ [digit_char (n mod 10)])"

definition render_int :: "int \<Rightarrow> string" where
  "render_int i = (if 0 \<le> i then digits_of (nat i) else CHR ''-'' # digits_of (nat (- i)))"

text \<open>\<open>Math.round(ms / 1000)\<close> on an integer number of milliseconds (halves round up).\<close>

definition round_seconds :: "int \<Rightarrow> int" where
  "round_seconds ms = (ms + 500) div 1000"


section \<open>Session store (SQLite tables \<open>task_sessions\<close> and \<open>processed_comments\<close>)\<close>

text \<open>A row of \<open>task_sessions\<close>, keyed by \<open>linear_task_id\<close>; SQL NULL is \<open>None\<close>.\<close>

record session_row =
  session_id :: "string option"
  row_identifier :: string
  row_title :: string
  started_at :: timestamp
  completed_at :: "timestamp option"
  row_success :: "int option"
  created_at :: timestamp
  updated_at :: timestamp

text \<open>A row of \<open>processed_comments\<close>, keyed by \<open>comment_id\<close>.\<close>

record comment_row =
  pc_linear_task_id :: string
  processed_at :: timestamp

record session_store =
  task_sessions :: "string \<rightharpoonup> session_row"
  processed_comments :: "string \<rightharpoonup> comment_row"

text \<open>The argument of \<open>saveSession\<close> (interface \<open>TaskSession\<close>).\<close>

record TaskSession =
  linearTaskId :: string
  sessionId :: string
  ts_identifier :: string
  ts_title :: string
  startedAt :: timestamp
  completedAt :: "timestamp option"
  success :: "bool option"

text \<open>\<open>taskSession.sessionId || null\<close>: the empty string is falsy.\<close>

definition or_null :: "string \<Rightarrow> string option" where
  "or_null s = (if s = [] then None else Some s)"

text \<open>SQL \<open>COALESCE(a, b)\<close> with \<open>b\<close> the column's current value.\<close>

definition coalesce :: "'a option \<Rightarrow> 'a option \<Rightarrow> 'a option" where
  "coalesce a b = (case a of Some v \<Rightarrow> Some v | None \<Rightarrow> b)"

definition success_int :: "bool \<Rightarrow> int" where
  "success_int b = (if b then 1 else 0)"

text \<open>\<open>saveSession\<close>: INSERT, or on a key conflict the UPDATE of the \<open>ON CONFLICT\<close> clause.\<close>

definition saveSession :: "timestamp \<Rightarrow> TaskSession \<Rightarrow> session_store \<Rightarrow> session_store" where
  "saveSession now t db =
     (let sid = or_null (sessionId t);
          suc = map_option success_int (success t)
      in case task_sessions db (linearTaskId t) of
           None \<Rightarrow>
             db\<lparr>task_sessions := (task_sessions db)(linearTaskId t \<mapsto>
               \<lparr>session_id = sid, row_identifier = ts_identifier t, row_title = ts_title t,
                started_at = startedAt t, completed_at = completedAt t, row_success = suc,
                created_at = now, updated_at = now\<rparr>)\<rparr>
         | Some r \<Rightarrow>
             db\<lparr>task_sessions := (task_sessions db)(linearTaskId t \<mapsto>
               r\<lparr>session_id := coalesce sid (session_id r),
                 row_identifier := ts_identifier t,
                 row_title := ts_title t,
                 started_at := startedAt t,
                 completed_at := coalesce (completedAt t) (completed_at r),
                 row_success := coalesce suc (row_success r),
                 updated_at := now\<rparr>)\<rparr>)"

text \<open>\<open>updateSessionId\<close>: an UPDATE, which touches no row when the key is absent.\<close>

definition updateSessionId :: "timestamp \<Rightarrow> string \<Rightarrow> string \<Rightarrow> session_store \<Rightarrow> session_store" where
  "updateSessionId now linearTaskId' sid db =
     (case task_sessions db linearTaskId' of
        None \<Rightarrow> db
      | Some r \<Rightarrow>
          db\<lparr>task_sessions := (task_sessions db)(linearTaskId' \<mapsto>
            r\<lparr>session_id := Some sid, updated_at := now\<rparr>)\<rparr>)"

text \<open>\<open>completeTask\<close>: an UPDATE as well.\<close>

definition completeTask :: "timestamp \<Rightarrow> string \<Rightarrow> bool \<Rightarrow> session_store \<Rightarrow> session_store" where
  "completeTask now linearTaskId' suc db =
     (case task_sessions db linearTaskId' of
        None \<Rightarrow> db
      | Some r \<Rightarrow>
          db\<lparr>task_sessions := (task_sessions db)(linearTaskId' \<mapsto>
            r\<lparr>completed_at := Some now, row_success := Some (success_int suc),
              updated_at := now\<rparr>)\<rparr>)"

text \<open>\<open>getSessionByTaskId\<close>, reduced to the column its callers read.\<close>

definition getSessionByTaskId :: "string \<Rightarrow> session_store \<Rightarrow> session_row option" where
  "getSessionByTaskId linearTaskId' db = task_sessions db linearTaskId'"

definition isCommentProcessed :: "string \<Rightarrow> session_store \<Rightarrow> bool" where
  "isCommentProcessed commentId db = (processed_comments db commentId \<noteq> None)"

text \<open>One \<open>INSERT OR IGNORE\<close> into \<open>processed_comments\<close>.\<close>

definition insert_or_ignore ::
  "timestamp \<Rightarrow> string \<Rightarrow> string \<Rightarrow> (string \<rightharpoonup> comment_row) \<Rightarrow> (string \<rightharpoonup> comment_row)" where
  "insert_or_ignore now commentId taskId led =
     (case led commentId of
        Some _ \<Rightarrow> led
      | None \<Rightarrow> led(commentId \<mapsto> \<lparr>pc_linear_task_id = taskId, processed_at = now\<rparr>))"

definition markCommentProcessed :: "timestamp \<Rightarrow> string \<Rightarrow> string \<Rightarrow> session_store \<Rightarrow> session_store" where
  "markCommentProcessed now commentId taskId db =
     db\<lparr>processed_comments := insert_or_ignore now commentId taskId (processed_comments db)\<rparr>"

text \<open>
  The body of the transaction of \<open>markCommentsProcessed\<close>: the loop over the ids. A
  statement can throw (the database engine reports an error); \<open>stmt_throws\<close> says for
  which comment ids it does, and the loop then stops with \<open>None\<close>.
\<close>

fun run_inserts ::
  "(string \<Rightarrow> bool) \<Rightarrow> timestamp \<Rightarrow> string \<Rightarrow> string list \<Rightarrow>
     (string \<rightharpoonup> comment_row) \<Rightarrow> (string \<rightharpoonup> comment_row) option" where
  "run_inserts stmt_throws now taskId [] led = Some led"
| "run_inserts stmt_throws now taskId (c # cs) led =
     (if stmt_throws c then None
      else run_inserts stmt_throws now taskId cs (insert_or_ignore now c taskId led))"

text \<open>
  \<open>markCommentsProcessed\<close>: \<open>db.transaction(...)\<close> commits when the body returns and rolls
  back, rethrowing, when it throws. The result pairs the store with whether the call threw.
\<close>

definition markCommentsProcessed ::
  "(string \<Rightarrow> bool) \<Rightarrow> timestamp \<Rightarrow> string list \<Rightarrow> string \<Rightarrow> session_store \<Rightarrow>
     session_store \<times> bool" where
  "markCommentsProcessed stmt_throws now commentIds taskId db =
     (case run_inserts stmt_throws now taskId commentIds (processed_comments db) of
        None \<Rightarrow> (db, True)
      | Some led \<Rightarrow> (db\<lparr>processed_comments := led\<rparr>, False))"


section \<open>The project tracker (Linear) and \<open>LinearService\<close>\<close>

datatype TaskStatus = BACKLOG | TODO | IN_PROGRESS | IN_REVIEW | DONE | FAILED | CANCELED

text \<open>\<open>LinearTask\<close> as \<open>getTasksByStatus\<close> builds it.\<close>

record LinearTask =
  lt_id :: string
  lt_identifier :: string
  lt_title :: string
  lt_description :: "string option"
  lt_priority :: "int option"
  lt_createdAt :: timestamp

record LinearComment =
  c_id :: string
  c_body :: string
  c_createdAt :: timestamp
  c_user :: "string option"

text \<open>An issue as the tracker holds it: the task's fields and the id of its workflow state.\<close>

record issue =
  i_task :: LinearTask
  i_stateId :: string

text \<open>A comment as the tracker holds it, with the issue it belongs to.\<close>

record stored_comment =
  sc_issueId :: string
  sc_comment :: LinearComment

text \<open>
  The tracker and the service's view of it. The first four fields are the service's
  (\<open>isConfigured\<close> with \<open>client\<close>, whether \<open>teamId\<close> is set, \<open>stateCache\<close> by status name,
  whether an API key is configured); the others are the tracker's own data, in the order
  its API returns them. The tracker gives a new comment the id \<open>comment_id_of n\<close> for its
  counter \<open>n\<close> and, as author, the user the API key belongs to. A request fails only
  when it names an issue the tracker does not have.
\<close>

record linear =
  isConfigured :: bool
  teamIdSet :: bool
  stateCache :: "TaskStatus \<rightharpoonup> string"
  apiKeySet :: bool
  team_found :: bool
  api_user :: string
  workflow_states :: "TaskStatus \<rightharpoonup> string"
  issues :: "issue list"
  comments :: "stored_comment list"
  comment_counter :: nat

definition comment_id_of :: "nat \<Rightarrow> string" where
  "comment_id_of n = ''comment-'' @ digits_of n"

definition refreshStateCache :: "linear \<Rightarrow> linear" where
  "refreshStateCache L =
     (if \<not> isConfigured L \<or> \<not> teamIdSet L then L
      else L\<lparr>stateCache := workflow_states L\<rparr>)"

definition initializeClient :: "linear \<Rightarrow> bool \<times> linear" where
  "initializeClient L =
     (if \<not> apiKeySet L then (False, L\<lparr>isConfigured := False\<rparr>)
      else (True, refreshStateCache (L\<lparr>isConfigured := True,
                                         teamIdSet := (teamIdSet L \<or> team_found L)\<rparr>)))"

definition ensureClient :: "linear \<Rightarrow> bool \<times> linear" where
  "ensureClient L = (if isConfigured L then (True, L) else initializeClient L)"

definition getStateId :: "TaskStatus \<Rightarrow> linear \<Rightarrow> string option" where
  "getStateId statusName L = stateCache L statusName"

text \<open>The tracker's \<open>updateIssue\<close> mutation: sets the state of every issue with that id.\<close>

definition has_issue :: "string \<Rightarrow> linear \<Rightarrow> bool" where
  "has_issue issueId L = list_ex (\<lambda>i. lt_id (i_task i) = issueId) (issues L)"

definition updateIssue :: "string \<Rightarrow> string \<Rightarrow> linear \<Rightarrow> linear option" where
  "updateIssue issueId stateId L =
     (if has_issue issueId L
      then Some (L\<lparr>issues := map (\<lambda>i. if lt_id (i_task i) = issueId
                                           then i\<lparr>i_stateId := stateId\<rparr> else i) (issues L)\<rparr>)
      else None)"

definition createComment :: "timestamp \<Rightarrow> string \<Rightarrow> string \<Rightarrow> linear \<Rightarrow> linear option" where
  "createComment now issueId body L =
     (if has_issue issueId L
      then Some (L\<lparr>comments := comments L @
                     [\<lparr>sc_issueId = issueId,
                       sc_comment = \<lparr>c_id = comment_id_of (comment_counter L), c_body = body,
                                     c_createdAt = now, c_user = Some (api_user L)\<rparr>\<rparr>],
                   comment_counter := Suc (comment_counter L)\<rparr>)
      else None)"

text \<open>\<open>getTasksByStatus\<close>: empty on every failure, otherwise the issues in that state.\<close>

definition getTasksByStatus :: "TaskStatus \<Rightarrow> linear \<Rightarrow> LinearTask list \<times> linear" where
  "getTasksByStatus statusName L0 =
     (let (ok, L1) = ensureClient L0 in
      if \<not> ok \<or> \<not> teamIdSet L1 then ([], L1)
      else
        let L2 = (case getStateId statusName L1 of
                    None \<Rightarrow> refreshStateCache L1
                  | Some _ \<Rightarrow> L1)
        in case getStateId statusName L2 of
             None \<Rightarrow> ([], L2)
           | Some finalStateId \<Rightarrow>
               (map i_task (filter (\<lambda>i. i_stateId i = finalStateId) (issues L2)), L2))"

text \<open>
  \<open>lockTask\<close>: looks up the id of the In Progress state in the cache and sets it on the
  issue; \<open>true\<close> unless the service is not configured, the state is not cached, or the
  tracker rejects the update. The issue's current state is not read.
\<close>

definition lockTask :: "string \<Rightarrow> linear \<Rightarrow> bool \<times> linear" where
  "lockTask issueId L0 =
     (let (ok, L1) = ensureClient L0 in
      if \<not> ok then (False, L1)
      else case getStateId IN_PROGRESS L1 of
             None \<Rightarrow> (False, L1)
           | Some inProgressStateId \<Rightarrow>
               (case updateIssue issueId inProgressStateId L1 of
                  None \<Rightarrow> (False, L1)
                | Some L2 \<Rightarrow> (True, L2)))"

definition updateStatus :: "string \<Rightarrow> TaskStatus \<Rightarrow> linear \<Rightarrow> bool \<times> linear" where
  "updateStatus issueId statusName L0 =
     (let (ok, L1) = ensureClient L0 in
      if \<not> ok then (False, L1)
      else
        let L2 = (case getStateId statusName L1 of
                    None \<Rightarrow> refreshStateCache L1
                  | Some _ \<Rightarrow> L1)
        in case getStateId statusName L2 of
             None \<Rightarrow> (False, L2)
           | Some finalStateId \<Rightarrow>
               (case updateIssue issueId finalStateId L2 of
                  None \<Rightarrow> (False, L2)
                | Some L3 \<Rightarrow> (True, L3)))"

definition addComment :: "timestamp \<Rightarrow> string \<Rightarrow> string \<Rightarrow> linear \<Rightarrow> bool \<times> linear" where
  "addComment now issueId content L0 =
     (let (ok, L1) = ensureClient L0 in
      if \<not> ok then (False, L1)
      else case createComment now issueId content L1 of
             None \<Rightarrow> (False, L1)
           | Some L2 \<Rightarrow> (True, L2))"

text \<open>
  \<open>getComments\<close>: the issue's comments, newest first (\<open>sort\<close> by \<open>createdAt\<close> descending;
  the sort is stable). Empty when the service is not configured or the issue is unknown.
\<close>

definition getComments :: "string \<Rightarrow> linear \<Rightarrow> LinearComment list \<times> linear" where
  "getComments issueId L0 =
     (let (ok, L1) = ensureClient L0 in
      if \<not> ok then ([], L1)
      else if \<not> has_issue issueId L1 then ([], L1)
      else (sort_key (\<lambda>c. - c_createdAt c)
              (map sc_comment (filter (\<lambda>sc. sc_issueId sc = issueId) (comments L1))), L1))"

text \<open>The workflow state an issue is in, by status name, for reading results.\<close>

definition issue_in_status :: "string \<Rightarrow> TaskStatus \<Rightarrow> linear \<Rightarrow> bool" where
  "issue_in_status issueId st L =
     (case workflow_states L st of
        None \<Rightarrow> False
      | Some sid \<Rightarrow> list_ex (\<lambda>i. lt_id (i_task i) = issueId \<and> i_stateId i = sid) (issues L))"


section \<open>The job queue (Bull), as the list of jobs added\<close>

record FeedbackJob =
  fj_task :: LinearTask
  fj_feedback :: string
  fj_commentIds :: "string list"
  fj_sessionId :: string

record RetryJob =
  rj_task :: LinearTask
  rj_sessionId :: string

datatype job_data = ExecuteData LinearTask | FeedbackData FeedbackJob | RetryData RetryJob

datatype backoff_type = Exponential

record job_opts =
  attempts :: nat
  backoff_kind :: backoff_type
  backoff_delay :: int
  timeout :: "int option"
  removeOnComplete :: bool
  removeOnFail :: bool

record job =
  job_name :: string
  job_payload :: job_data
  job_options :: job_opts

text \<open>The options every \<open>taskQueue.add\<close> of the source passes.\<close>

definition default_job_opts :: "int option \<Rightarrow> job_opts" where
  "default_job_opts tmo =
     \<lparr>attempts = 3, backoff_kind = Exponential, backoff_delay = 5000, timeout = tmo,
      removeOnComplete = True, removeOnFail = False\<rparr>"


section \<open>Events broadcast by \<open>MonitorGateway\<close>\<close>

datatype update_status = Queued | Running | Completed | Failed

record TaskUpdateEvent =
  tu_taskId :: string
  tu_identifier :: string
  tu_status :: update_status
  tu_progress :: "int option"
  tu_currentStep :: "string option"
  tu_startedAt :: "timestamp option"
  tu_duration :: "int option"
  tu_sessionId :: "string option"

datatype log_level = Info | Warn | Error

record LogEvent =
  le_timestamp :: timestamp
  le_level :: log_level
  le_taskId :: "string option"
  le_message :: string

record StatsEvent =
  se_todo :: nat
  se_inProgress :: nat
  se_inReview :: nat
  se_done :: nat
  se_failed :: nat
  se_queueLength :: nat

datatype event = TaskUpdate TaskUpdateEvent | Log LogEvent | Stats StatsEvent


section \<open>The whole system's state\<close>

record RunningTaskInfo =
  rt_taskId :: string
  rt_identifier :: string
  rt_title :: string
  rt_progress :: int
  rt_currentStep :: "string option"
  rt_steps :: "(string \<times> timestamp) list"
  rt_startedAt :: timestamp
  rt_sessionId :: "string option"

record TaskExecutionHistory =
  th_taskId :: string
  th_identifier :: string
  th_title :: string
  th_sessionId :: "string option"
  th_startedAt :: timestamp
  th_completedAt :: timestamp
  th_success :: bool

text \<open>
  \<open>runningTasks\<close>, \<open>taskHistory\<close> and \<open>isPaused\<close> are \<open>MonitorService\<close>'s fields;
  \<open>sessionStore\<close> is the SQLite database; \<open>gateway\<close> lists what was broadcast, oldest
  first; \<open>linearService\<close> is the tracker; \<open>taskQueue\<close> the jobs added, oldest first (the
  model keeps a job in the list when a handler runs it, and adding a job never fails);
  \<open>taskTimeout\<close> the configured \<open>app.taskTimeout\<close>; the two flags are the pollers'
  \<open>isPolling\<close>.
\<close>

record world =
  runningTasks :: "string \<rightharpoonup> RunningTaskInfo"
  taskHistory :: "string \<rightharpoonup> TaskExecutionHistory"
  isPaused :: bool
  sessionStore :: session_store
  gateway :: "event list"
  linearService :: linear
  taskQueue :: "job list"
  taskTimeout :: "int option"
  taskPollerPolling :: bool
  reviewPollerPolling :: bool

definition broadcast :: "event \<Rightarrow> world \<Rightarrow> world" where
  "broadcast e w = w\<lparr>gateway := gateway w @ [e]\<rparr>"

text \<open>Lifting a \<open>LinearService\<close> call to the world.\<close>

definition on_linear :: "(linear \<Rightarrow> 'a \<times> linear) \<Rightarrow> world \<Rightarrow> 'a \<times> world" where
  "on_linear f w = (let (r, L) = f (linearService w) in (r, w\<lparr>linearService := L\<rparr>))"

definition queue_add :: "string \<Rightarrow> job_data \<Rightarrow> world \<Rightarrow> world" where
  "queue_add name' d w =
     w\<lparr>taskQueue := taskQueue w @
        [\<lparr>job_name = name', job_payload = d, job_options = default_job_opts (taskTimeout w)\<rparr>]\<rparr>"


section \<open>\<open>MonitorService\<close>\<close>

definition count_status :: "TaskStatus \<Rightarrow> world \<Rightarrow> nat \<times> world" where
  "count_status st w = (let (ts, w') = on_linear (getTasksByStatus st) w in (length ts, w'))"

text \<open>
  \<open>refreshStats\<close>: the per-status counts of \<open>getLinearStats\<close> and the queue's waiting
  count, broadcast as one \<open>stats:update\<close>.
\<close>

definition refreshStats :: "world \<Rightarrow> world" where
  "refreshStats w0 =
     (let (todo, w1) = count_status TODO w0;
          (inProgress, w2) = count_status IN_PROGRESS w1;
          (inReview, w3) = count_status IN_REVIEW w2;
          (done', w4) = count_status DONE w3;
          (failed, w5) = count_status FAILED w4
      in broadcast (Stats \<lparr>se_todo = todo, se_inProgress = inProgress, se_inReview = inReview,
                            se_done = done', se_failed = failed,
                            se_queueLength = length (taskQueue w5)\<rparr>) w5)"

definition taskStarted :: "timestamp \<Rightarrow> string \<Rightarrow> string \<Rightarrow> string \<Rightarrow> world \<Rightarrow> world" where
  "taskStarted now taskId identifier title w =
     (let info = \<lparr>rt_taskId = taskId, rt_identifier = identifier, rt_title = title,
                  rt_progress = 0, rt_currentStep = None, rt_steps = [],
                  rt_startedAt = now, rt_sessionId = None\<rparr>;
          w1 = w\<lparr>runningTasks := (runningTasks w)(taskId \<mapsto> info)\<rparr>;
          w2 = w1\<lparr>sessionStore := saveSession now
                  \<lparr>linearTaskId = taskId, sessionId = [], ts_identifier = identifier,
                   ts_title = title, startedAt = now, completedAt = None, success = None\<rparr>
                  (sessionStore w1)\<rparr>;
          w3 = broadcast (TaskUpdate \<lparr>tu_taskId = taskId, tu_identifier = identifier,
                  tu_status = Running, tu_progress = None, tu_currentStep = None,
                  tu_startedAt = Some now, tu_duration = None, tu_sessionId = None\<rparr>) w2
      in broadcast (Log \<lparr>le_timestamp = now, le_level = Info, le_taskId = Some taskId,
                         le_message = emoji_rocket @ '' ['' @ identifier @ ''] Starting task: ''
                                      @ title\<rparr>) w3)"

definition taskProgress :: "timestamp \<Rightarrow> string \<Rightarrow> string \<Rightarrow> int \<Rightarrow> world \<Rightarrow> world" where
  "taskProgress now taskId step progress w =
     (case runningTasks w taskId of
        None \<Rightarrow> w
      | Some info \<Rightarrow>
          (let info' = info\<lparr>rt_progress := progress, rt_currentStep := Some step,
                            rt_steps := rt_steps info @ [(step, now)]\<rparr>;
               w1 = w\<lparr>runningTasks := (runningTasks w)(taskId \<mapsto> info')\<rparr>;
               w2 = broadcast (TaskUpdate \<lparr>tu_taskId = taskId,
                       tu_identifier = rt_identifier info', tu_status = Running,
                       tu_progress = Some progress, tu_currentStep = Some step,
                       tu_startedAt = None, tu_duration = Some (now - rt_startedAt info'),
                       tu_sessionId = None\<rparr>) w1
           in broadcast (Log \<lparr>le_timestamp = now, le_level = Info, le_taskId = Some taskId,
                              le_message = ''['' @ rt_identifier info' @ ''] '' @ step\<rparr>) w2))"

definition taskSessionId :: "timestamp \<Rightarrow> string \<Rightarrow> string \<Rightarrow> world \<Rightarrow> world" where
  "taskSessionId now taskId sid w =
     (case runningTasks w taskId of
        None \<Rightarrow> w
      | Some info \<Rightarrow>
          (let info' = info\<lparr>rt_sessionId := Some sid\<rparr>;
               w1 = w\<lparr>runningTasks := (runningTasks w)(taskId \<mapsto> info')\<rparr>;
               w2 = w1\<lparr>sessionStore := updateSessionId now taskId sid (sessionStore w1)\<rparr>;
               w3 = broadcast (TaskUpdate \<lparr>tu_taskId = taskId,
                       tu_identifier = rt_identifier info', tu_status = Running,
                       tu_progress = Some (rt_progress info'),
                       tu_currentStep = rt_currentStep info',
                       tu_startedAt = None, tu_duration = Some (now - rt_startedAt info'),
                       tu_sessionId = Some sid\<rparr>) w2
           in broadcast (Log \<lparr>le_timestamp = now, le_level = Info, le_taskId = Some taskId,
                              le_message = ''['' @ rt_identifier info' @ ''] Session ID: ''
                                           @ sid\<rparr>) w3))"

text \<open>A missing \<open>summary\<close> is rendered by the template string as \<open>undefined\<close>.\<close>

definition render_opt :: "string option \<Rightarrow> string" where
  "render_opt s = (case s of None \<Rightarrow> ''undefined'' | Some t \<Rightarrow> t)"

definition taskCompleted ::
  "timestamp \<Rightarrow> string \<Rightarrow> bool \<Rightarrow> string option \<Rightarrow> world \<Rightarrow> world" where
  "taskCompleted now taskId suc summary w =
     (case runningTasks w taskId of
        None \<Rightarrow> w
      | Some info \<Rightarrow>
          (let duration = now - rt_startedAt info;
               w1 = w\<lparr>taskHistory := (taskHistory w)(taskId \<mapsto>
                       \<lparr>th_taskId = taskId, th_identifier = rt_identifier info,
                        th_title = rt_title info, th_sessionId = rt_sessionId info,
                        th_startedAt = rt_startedAt info, th_completedAt = now,
                        th_success = suc\<rparr>)\<rparr>;
               w2 = w1\<lparr>sessionStore := completeTask now taskId suc (sessionStore w1)\<rparr>;
               w3 = broadcast (TaskUpdate \<lparr>tu_taskId = taskId,
                       tu_identifier = rt_identifier info,
                       tu_status = (if suc then Completed else Failed),
                       tu_progress = Some 100, tu_currentStep = None, tu_startedAt = None,
                       tu_duration = Some duration, tu_sessionId = rt_sessionId info\<rparr>) w2;
               w4 = broadcast (Log \<lparr>le_timestamp = now,
                       le_level = (if suc then Info else Error), le_taskId = Some taskId,
                       le_message =
                         (if suc
                          then emoji_party @ '' ['' @ rt_identifier info
                               @ ''] Task completed (duration: ''
                               @ render_int (round_seconds duration) @ ''s)''
                          else emoji_cross @ '' ['' @ rt_identifier info @ ''] Task failed: ''
                               @ render_opt summary)\<rparr>) w3;
               w5 = w4\<lparr>runningTasks := (runningTasks w4)(taskId := None)\<rparr>
           in refreshStats w5))"

text \<open>\<open>getTaskSessionId\<close>: the running entry's session id, else the stored one.\<close>

definition getTaskSessionId :: "string \<Rightarrow> world \<Rightarrow> string option" where
  "getTaskSessionId taskId w =
     (case (case runningTasks w taskId of
              None \<Rightarrow> None
            | Some info \<Rightarrow> Option.bind (rt_sessionId info) or_null) of
        Some sid \<Rightarrow> Some sid
      | None \<Rightarrow>
          (case getSessionByTaskId taskId (sessionStore w) of
             None \<Rightarrow> None
           | Some r \<Rightarrow> Option.bind (session_id r) or_null))"

text \<open>A call of one of the four reporting methods, and a sequence of them with the clock.\<close>

datatype monitor_call =
    Started string string string
  | Progress string string int
  | SessionId string string
  | CompletedCall string bool "string option"

fun apply_call :: "timestamp \<times> monitor_call \<Rightarrow> world \<Rightarrow> world" where
  "apply_call (now, Started taskId identifier title) w = taskStarted now taskId identifier title w"
| "apply_call (now, Progress taskId step pct) w = taskProgress now taskId step pct w"
| "apply_call (now, SessionId taskId sid) w = taskSessionId now taskId sid w"
| "apply_call (now, CompletedCall taskId suc summary) w = taskCompleted now taskId suc summary w"

definition apply_calls :: "(timestamp \<times> monitor_call) list \<Rightarrow> world \<Rightarrow> world" where
  "apply_calls cs w = fold apply_call cs w"

fun is_start :: "string \<Rightarrow> monitor_call \<Rightarrow> bool" where
  "is_start taskId (Started t _ _) = (t = taskId)"
| "is_start taskId _ = False"

fun is_complete :: "string \<Rightarrow> monitor_call \<Rightarrow> bool" where
  "is_complete taskId (CompletedCall t _ _) = (t = taskId)"
| "is_complete taskId _ = False"

fun run_body_call :: "string \<Rightarrow> monitor_call \<Rightarrow> bool" where
  "run_body_call taskId (Progress t _ _) = (t = taskId)"
| "run_body_call taskId (SessionId t _) = (t = taskId)"
| "run_body_call taskId _ = False"

text \<open>
  What one job handler reports for a task, as every handler of \<open>TaskProcessor\<close> does:
  \<open>taskStarted\<close>, then progress and session-id callbacks, then one \<open>taskCompleted\<close>.
\<close>

fun is_run :: "string \<Rightarrow> (timestamp \<times> monitor_call) list \<Rightarrow> bool" where
  "is_run taskId [] = False"
| "is_run taskId (c # cs) =
     (is_start taskId (snd c) \<and> cs \<noteq> [] \<and> is_complete taskId (snd (last cs)) \<and>
      list_all (\<lambda>d. run_body_call taskId (snd d)) (butlast cs))"

text \<open>The session ids a sequence of calls reports, in order.\<close>

fun captured :: "(timestamp \<times> monitor_call) list \<Rightarrow> string list" where
  "captured [] = []"
| "captured ((_, SessionId _ sid) # cs) = sid # captured cs"
| "captured (_ # cs) = captured cs"

definition last_option :: "'a list \<Rightarrow> 'a option" where
  "last_option xs = (if xs = [] then None else Some (last xs))"

text \<open>The \<open>session_id\<close> column stored for a task (\<open>None\<close>: no row, or NULL).\<close>

definition stored_session_id :: "string \<Rightarrow> world \<Rightarrow> string option" where
  "stored_session_id taskId w =
     (case task_sessions (sessionStore w) taskId of None \<Rightarrow> None | Some r \<Rightarrow> session_id r)"


section \<open>\<open>ClaudeService\<close>: running the execution agent\<close>

text \<open>
  The agent is outside the system; one run of it is given by the messages its stream
  yields and, when the stream (or the preparation of the query) throws, the error's
  message. What the agent does to the tracker through its own tools is not part of the
  model.
\<close>

datatype content_block = TextBlock string | ToolUseBlock string | OtherBlock

datatype sdk_message =
    AssistantMsg "content_block list option"
  | ResultMsg bool "string option"
  | SystemMsg bool "string option"
  | ToolProgressMsg
  | AuthStatusMsg
  | OtherMsg

record agent_run =
  ar_messages :: "sdk_message list"
  ar_throws :: "string option"

datatype AuthMethod = ApiKey | Login

record TaskExecutionResult =
  r_success :: bool
  r_error :: "string option"
  r_sessionId :: "string option"

text \<open>The callbacks, with the clock reading at the moment of the call as first argument.\<close>

record ProgressCallback =
  onProgress :: "timestamp \<Rightarrow> string \<Rightarrow> int \<Rightarrow> world \<Rightarrow> world"
  onSessionId :: "timestamp \<Rightarrow> string \<Rightarrow> world \<Rightarrow> world"

text \<open>The local variables of the streaming loop.\<close>

record stream_vars =
  responseText :: string
  lastProgress :: int
  toolCallCount :: nat
  sv_sessionId :: "string option"

definition process_block ::
  "ProgressCallback \<Rightarrow> timestamp \<Rightarrow> content_block \<Rightarrow> stream_vars \<times> world \<Rightarrow>
     stream_vars \<times> world" where
  "process_block cb t b = (\<lambda>(v, w).
     case b of
       TextBlock text' \<Rightarrow> (v\<lparr>responseText := responseText v @ text'\<rparr>, w)
     | ToolUseBlock toolName \<Rightarrow>
         (let n = Suc (toolCallCount v);
              p = min 90 (20 + int n * 15)
          in (v\<lparr>toolCallCount := n, lastProgress := p\<rparr>,
              onProgress cb t (''Using tool: '' @ toolName) p w))
     | OtherBlock \<Rightarrow> (v, w))"

text \<open>
  \<open>processMessage\<close>: text and tool calls of an assistant message, and the session id of a
  \<open>system\<close> message of subtype \<open>init\<close> when it is non-empty.
\<close>

definition processMessage ::
  "ProgressCallback \<Rightarrow> timestamp \<Rightarrow> sdk_message \<Rightarrow> stream_vars \<times> world \<Rightarrow>
     stream_vars \<times> world" where
  "processMessage cb t msg = (\<lambda>(v, w).
     case msg of
       AssistantMsg (Some blocks) \<Rightarrow> fold (process_block cb t) blocks (v, w)
     | SystemMsg True (Some sid) \<Rightarrow>
         (if sid = [] then (v, w)
          else (v\<lparr>sv_sessionId := Some sid\<rparr>, onSessionId cb t sid w))
     | _ \<Rightarrow> (v, w))"

definition run_stream ::
  "ProgressCallback \<Rightarrow> timestamp \<Rightarrow> sdk_message list \<Rightarrow> world \<Rightarrow> stream_vars \<times> world" where
  "run_stream cb t msgs w =
     fold (processMessage cb t) msgs
       (\<lparr>responseText = [], lastProgress = 10, toolCallCount = 0, sv_sessionId = None\<rparr>, w)"

text \<open>The error message of the \<open>catch\<close> branch of \<open>executeTask\<close> and \<open>executeFeedback\<close>.\<close>

definition auth_error_message :: "AuthMethod \<Rightarrow> string \<Rightarrow> string" where
  "auth_error_message authMethod msg =
     (if includes_str msg ''401'' \<or> includes_str msg ''invalid token'' \<or> includes_str msg ''invalid''
      then (if authMethod = ApiKey
            then ''Proxy API authentication failed. Please check if ANTHROPIC_BASE_URL and ANTHROPIC_AUTH_TOKEN are correct.''
                 @ newline @ ''Original error: '' @ msg
            else ''Anthropic API authentication failed. Please check if ANTHROPIC_API_KEY is correct.''
                 @ newline @ ''Original error: '' @ msg)
      else msg)"

definition code_fence :: "string \<Rightarrow> string" where
  "code_fence body =
     backtick @ backtick @ backtick @ newline @ body @ newline @ backtick @ backtick @ backtick"

definition has_failure_marker :: "string \<Rightarrow> bool" where
  "has_failure_marker text' = (includes_str text' emoji_cross \<and> includes_str text' ''failed'')"

definition has_completion_marker :: "string \<Rightarrow> bool" where
  "has_completion_marker text' = (includes_str text' emoji_party \<or> includes_str text' emoji_eyes)"

text \<open>
  \<open>executeTask\<close>. \<open>now\<close> is the clock when it starts; \<open>fin\<close> is the clock when the
  stream has ended, taken for the calls made while streaming and after it.
  It never throws: every failure is a result with \<open>success = false\<close>.
  (\<open>slice(0, 500)\<close> counts UTF-16 units in the source and bytes here.)
\<close>

definition executeTask ::
  "AuthMethod \<Rightarrow> agent_run \<Rightarrow> timestamp \<Rightarrow> timestamp \<Rightarrow> LinearTask \<Rightarrow> ProgressCallback \<Rightarrow>
     world \<Rightarrow> TaskExecutionResult \<times> world" where
  "executeTask authMethod run now fin task cb w0 =
     (let w1 = onProgress cb now (emoji_rocket @ '' Starting task execution'') 10 w0;
          (v, w2) = run_stream cb fin (ar_messages run) w1
      in case ar_throws run of
           Some msg \<Rightarrow>
             (let errorMessage = auth_error_message authMethod msg;
                  (_, w3) = on_linear (addComment fin (lt_id task)
                     (emoji_cross @ '' Task execution failed'' @ newline @ newline
                      @ ''**Error:**'' @ newline @ code_fence errorMessage)) w2;
                  w4 = onProgress cb fin (emoji_cross @ '' Execution failed: '' @ errorMessage) 100 w3
              in (\<lparr>r_success = False, r_error = Some errorMessage, r_sessionId = None\<rparr>, w4))
         | None \<Rightarrow>
             if has_failure_marker (responseText v)
             then (\<lparr>r_success = False, r_error = Some (responseText v),
                    r_sessionId = sv_sessionId v\<rparr>,
                   onProgress cb fin (emoji_cross @ '' Task execution failed'') 100 w2)
             else
               (let duration = round_seconds (fin - now);
                    w3 = (if \<not> has_completion_marker (responseText v)
                          then snd (on_linear (addComment fin (lt_id task)
                                 (emoji_party @ '' Task completed'' @ newline @ newline
                                  @ ''**Execution Summary:**'' @ newline
                                  @ take 500 (responseText v) @ newline @ newline
                                  @ ''**Duration:** '' @ render_int duration @ '' seconds'')) w2)
                          else w2);
                    w4 = onProgress cb fin (emoji_party @ '' Task completed'') 100 w3
                in (\<lparr>r_success = True, r_error = None, r_sessionId = sv_sessionId v\<rparr>, w4)))"

text \<open>\<open>newSessionId || sessionId\<close>.\<close>

definition or_else :: "string option \<Rightarrow> string \<Rightarrow> string" where
  "or_else a b = (case a of None \<Rightarrow> b | Some s \<Rightarrow> if s = [] then b else s)"

text \<open>
  \<open>executeFeedback\<close>: the same loop on a resumed session; the feedback text goes into the
  prompt, which only the agent reads.
\<close>

definition executeFeedback ::
  "AuthMethod \<Rightarrow> agent_run \<Rightarrow> timestamp \<Rightarrow> timestamp \<Rightarrow> LinearTask \<Rightarrow> string \<Rightarrow> string \<Rightarrow>
     ProgressCallback \<Rightarrow> world \<Rightarrow> TaskExecutionResult \<times> world" where
  "executeFeedback authMethod run now fin task feedback sessionId' cb w0 =
     (let w1 = onProgress cb now (emoji_cycle @ '' Processing feedback'') 10 w0;
          (v, w2) = run_stream cb fin (ar_messages run) w1
      in case ar_throws run of
           Some msg \<Rightarrow>
             (let errorMessage = auth_error_message authMethod msg;
                  (_, w3) = on_linear (addComment fin (lt_id task)
                     (emoji_cross @ '' Feedback processing failed'' @ newline @ newline
                      @ ''**Error:**'' @ newline @ code_fence errorMessage)) w2;
                  w4 = onProgress cb fin (emoji_cross @ '' Execution failed: '' @ errorMessage) 100 w3
              in (\<lparr>r_success = False, r_error = Some errorMessage,
                   r_sessionId = Some sessionId'\<rparr>, w4))
         | None \<Rightarrow>
             if has_failure_marker (responseText v)
             then (\<lparr>r_success = False, r_error = Some (responseText v),
                    r_sessionId = Some (or_else (sv_sessionId v) sessionId')\<rparr>,
                   onProgress cb fin (emoji_cross @ '' Feedback processing failed'') 100 w2)
             else
               (let duration = round_seconds (fin - now);
                    w3 = (if \<not> has_completion_marker (responseText v)
                          then snd (on_linear (addComment fin (lt_id task)
                                 (emoji_party @ '' Feedback processed'' @ newline @ newline
                                  @ ''**Execution Summary:**'' @ newline
                                  @ take 500 (responseText v) @ newline @ newline
                                  @ ''**Duration:** '' @ render_int duration @ '' seconds'')) w2)
                          else w2);
                    w4 = onProgress cb fin (emoji_party @ '' Feedback processed'') 100 w3
                in (\<lparr>r_success = True, r_error = None,
                     r_sessionId = Some (or_else (sv_sessionId v) sessionId')\<rparr>, w4)))"

text \<open>
  The text the streaming loop collects in \<open>responseText\<close>: the text blocks of the
  assistant messages, in order.
\<close>

definition block_text :: "content_block \<Rightarrow> string" where
  "block_text b = (case b of TextBlock text' \<Rightarrow> text' | _ \<Rightarrow> [])"

definition message_text :: "sdk_message \<Rightarrow> string" where
  "message_text msg =
     (case msg of AssistantMsg (Some blocks) \<Rightarrow> concat (map block_text blocks) | _ \<Rightarrow> [])"

definition agent_text :: "sdk_message list \<Rightarrow> string" where
  "agent_text msgs = concat (map message_text msgs)"

text \<open>
  The agent run succeeds: the stream does not throw and the collected text has no failure
  marker. This is when \<open>executeTask\<close> and \<open>executeFeedback\<close> return \<open>success: true\<close>.
\<close>

definition run_succeeds :: "agent_run \<Rightarrow> bool" where
  "run_succeeds run =
     (ar_throws run = None \<and> \<not> has_failure_marker (agent_text (ar_messages run)))"


section \<open>\<open>TaskProcessor\<close>\<close>

definition REVIEW_KEYWORDS :: "string list" where
  "REVIEW_KEYWORDS =
     [''write'', ''generate'', ''create'', ''send'', ''email'', ''article'', ''report'',
      ''delete'', ''modify'', ''update'', ''code'', ''script'']"

text \<open>\<open>task.description || ''\<close>.\<close>

definition or_empty :: "string option \<Rightarrow> string" where
  "or_empty d = (case d of None \<Rightarrow> [] | Some t \<Rightarrow> t)"

definition checkNeedsReview :: "LinearTask \<Rightarrow> bool" where
  "checkNeedsReview task =
     (let content = toLowerCase (lt_title task @ '' '' @ or_empty (lt_description task))
      in list_ex (\<lambda>keyword. includes_str content keyword) REVIEW_KEYWORDS)"

text \<open>The callbacks every handler passes to \<open>ClaudeService\<close>.\<close>

definition monitor_callbacks :: "string \<Rightarrow> ProgressCallback" where
  "monitor_callbacks taskId =
     \<lparr>onProgress = (\<lambda>t step progress. taskProgress t taskId step progress),
      onSessionId = (\<lambda>t sid. taskSessionId t taskId sid)\<rparr>"

definition review_instructions :: string where
  "review_instructions =
     ''Please check the execution result, then:'' @ newline
     @ ''- '' @ emoji_check @ '' Approved '' @ arrow @ '' Change status to '' @ dquote @ ''Done''
     @ dquote @ newline
     @ ''- '' @ emoji_cycle @ '' Needs changes '' @ arrow
     @ '' Reply with feedback, change status back to '' @ dquote @ ''Todo'' @ dquote @ newline
     @ ''- '' @ emoji_cross @ '' Cancel task '' @ arrow @ '' Change status to '' @ dquote
     @ ''Canceled'' @ dquote"

definition failure_comment :: "string \<Rightarrow> string \<Rightarrow> nat \<Rightarrow> nat \<Rightarrow> string" where
  "failure_comment headline message attemptsMade attempts' =
     emoji_cross @ '' '' @ headline @ newline @ newline @ ''**Error:**'' @ newline
     @ code_fence message @ newline @ newline @ ''**Retry attempts:** ''
     @ digits_of attemptsMade @ ''/'' @ digits_of attempts'"

text \<open>
  The \<open>catch\<close> block the three handlers share: status Failed, the failure comment,
  \<open>taskCompleted(id, false, message)\<close>; the handler then rethrows.
\<close>

definition report_failure ::
  "timestamp \<Rightarrow> LinearTask \<Rightarrow> string \<Rightarrow> string \<Rightarrow> nat \<Rightarrow> nat \<Rightarrow> world \<Rightarrow> world" where
  "report_failure fin task headline message attemptsMade attempts' w0 =
     (let (_, w1) = on_linear (updateStatus (lt_id task) FAILED) w0;
          (_, w2) = on_linear (addComment fin (lt_id task)
                      (failure_comment headline message attemptsMade attempts')) w1
      in taskCompleted fin (lt_id task) False (Some message) w2)"

text \<open>
  The handlers return \<open>Inl message\<close> when they throw (the queue then applies its retry
  policy) and \<open>Inr ()\<close> when they return.
\<close>

definition handleTask ::
  "AuthMethod \<Rightarrow> agent_run \<Rightarrow> timestamp \<Rightarrow> timestamp \<Rightarrow> nat \<Rightarrow> nat \<Rightarrow> LinearTask \<Rightarrow>
     world \<Rightarrow> (string + unit) \<times> world" where
  "handleTask authMethod run now fin attemptsMade attempts' task w0 =
     (let w1 = taskStarted now (lt_id task) (lt_identifier task) (lt_title task) w0;
          (result, w2) = executeTask authMethod run now fin task
                           (monitor_callbacks (lt_id task)) w1
      in if r_success result
         then
           (let w3 = (if checkNeedsReview task
                      then (let (_, wa) = on_linear (updateStatus (lt_id task) IN_REVIEW) w2;
                                (_, wb) = on_linear (addComment fin (lt_id task)
                                   (emoji_eyes @ '' **Task completed, awaiting human review**''
                                    @ newline @ newline @ review_instructions)) wa
                            in wb)
                      else snd (on_linear (updateStatus (lt_id task) DONE) w2))
            in (Inr (), taskCompleted fin (lt_id task) True None w3))
         else
           (let message = or_empty (r_error result)
            in (Inl message,
                report_failure fin task ''Task execution failed'' message attemptsMade attempts' w2)))"

text \<open>
  \<open>handleFeedback\<close>. \<open>stmt_throws\<close> and \<open>db_error\<close> describe a failing database statement
  inside \<open>markCommentsProcessed\<close> and the message of the error it throws.
\<close>

definition handleFeedback ::
  "AuthMethod \<Rightarrow> agent_run \<Rightarrow> (string \<Rightarrow> bool) \<Rightarrow> string \<Rightarrow> timestamp \<Rightarrow> timestamp \<Rightarrow>
     nat \<Rightarrow> nat \<Rightarrow> FeedbackJob \<Rightarrow> world \<Rightarrow> (string + unit) \<times> world" where
  "handleFeedback authMethod run stmt_throws db_error now fin attemptsMade attempts' data w0 =
     (let task = fj_task data;
          w1 = taskStarted now (lt_id task) (lt_identifier task)
                 (''[Feedback] '' @ lt_title task) w0;
          (_, w2) = on_linear (updateStatus (lt_id task) IN_PROGRESS) w1;
          (_, w3) = on_linear (addComment now (lt_id task)
                      (emoji_cycle @ '' Processing your feedback...'')) w2;
          (result, w4) = executeFeedback authMethod run now fin task (fj_feedback data)
                           (fj_sessionId data) (monitor_callbacks (lt_id task)) w3;
          (db', threw) = markCommentsProcessed stmt_throws fin (fj_commentIds data) (lt_id task)
                           (sessionStore w4);
          w5 = w4\<lparr>sessionStore := db'\<rparr>
      in if threw
         then (Inl db_error,
               report_failure fin task ''Feedback processing failed'' db_error
                 attemptsMade attempts' w5)
         else if r_success result
         then (Inr (), taskCompleted fin (lt_id task) True None w5)
         else
           (let message = or_empty (r_error result)
            in (Inl message,
                report_failure fin task ''Feedback processing failed'' message
                  attemptsMade attempts' w5)))"

definition retryPrompt :: string where
  "retryPrompt =
     ''This is a task retry. Please review the previous execution history, identify the cause of failure, and attempt to complete the task again.''
     @ newline @ newline @ ''Pay special attention to:'' @ newline
     @ ''1. Review the previous error messages'' @ newline
     @ ''2. Analyze the failure cause'' @ newline
     @ ''3. Take a different approach or fix the error'' @ newline
     @ ''4. Re-execute the task''"

definition handleRetry ::
  "AuthMethod \<Rightarrow> agent_run \<Rightarrow> timestamp \<Rightarrow> timestamp \<Rightarrow> nat \<Rightarrow> nat \<Rightarrow> RetryJob \<Rightarrow>
     world \<Rightarrow> (string + unit) \<times> world" where
  "handleRetry authMethod run now fin attemptsMade attempts' data w0 =
     (let task = rj_task data;
          w1 = taskStarted now (lt_id task) (lt_identifier task)
                 (''[Retry] '' @ lt_title task) w0;
          (_, w2) = on_linear (addComment now (lt_id task)
                      (emoji_cycle @ '' Retrying task execution...'')) w1;
          (result, w3) = executeFeedback authMethod run now fin task retryPrompt
                           (rj_sessionId data) (monitor_callbacks (lt_id task)) w2
      in if r_success result
         then
           (let w4 = (if checkNeedsReview task
                      then (let (_, wa) = on_linear (updateStatus (lt_id task) IN_REVIEW) w3;
                                (_, wb) = on_linear (addComment fin (lt_id task)
                                   (emoji_eyes @ '' **Retry completed, awaiting human review**''
                                    @ newline @ newline @ review_instructions)) wa
                            in wb)
                      else (let (_, wa) = on_linear (updateStatus (lt_id task) DONE) w3;
                                (_, wb) = on_linear (addComment fin (lt_id task)
                                   (emoji_check @ '' **Retry successful! Task completed**'')) wa
                            in wb))
            in (Inr (), taskCompleted fin (lt_id task) True None w4))
         else
           (let message = or_empty (r_error result)
            in (Inl message,
                report_failure fin task ''Retry failed'' message attemptsMade attempts' w3)))"


text \<open>
  What surrounds one run of a handler: the agent's behaviour, the clock, the queue's
  attempt counters, and the database's behaviour in \<open>markCommentsProcessed\<close>.
\<close>

record run_ctx =
  rc_auth :: AuthMethod
  rc_run :: agent_run
  rc_now :: timestamp
  rc_fin :: timestamp
  rc_attemptsMade :: nat
  rc_attempts :: nat
  rc_stmt_throws :: "string \<Rightarrow> bool"
  rc_db_error :: string

text \<open>The queue's dispatch on the job name: \<open>@Process('execute' | 'feedback' | 'retry')\<close>.\<close>

definition process_job :: "run_ctx \<times> job_data \<Rightarrow> world \<Rightarrow> (string + unit) \<times> world" where
  "process_job = (\<lambda>(c, d) w.
     case d of
       ExecuteData task \<Rightarrow>
         handleTask (rc_auth c) (rc_run c) (rc_now c) (rc_fin c) (rc_attemptsMade c)
           (rc_attempts c) task w
     | FeedbackData data \<Rightarrow>
         handleFeedback (rc_auth c) (rc_run c) (rc_stmt_throws c) (rc_db_error c) (rc_now c)
           (rc_fin c) (rc_attemptsMade c) (rc_attempts c) data w
     | RetryData data \<Rightarrow>
         handleRetry (rc_auth c) (rc_run c) (rc_now c) (rc_fin c) (rc_attemptsMade c)
           (rc_attempts c) data w)"

text \<open>Jobs run one after the other, whatever each returns or throws.\<close>

definition process_jobs :: "(run_ctx \<times> job_data) list \<Rightarrow> world \<Rightarrow> world" where
  "process_jobs js w = fold (\<lambda>j w'. snd (process_job j w')) js w"

definition job_task :: "job_data \<Rightarrow> LinearTask" where
  "job_task d =
     (case d of ExecuteData task \<Rightarrow> task
              | FeedbackData data \<Rightarrow> fj_task data
              | RetryData data \<Rightarrow> rj_task data)"

text \<open>The session ids the agent's stream reports (non-empty ids of \<open>init\<close> messages), in order.\<close>

fun stream_sessions :: "sdk_message list \<Rightarrow> string list" where
  "stream_sessions [] = []"
| "stream_sessions (SystemMsg True (Some sid) # ms) =
     (if sid = [] then stream_sessions ms else sid # stream_sessions ms)"
| "stream_sessions (_ # ms) = stream_sessions ms"


section \<open>The pollers\<close>

text \<open>
  One iteration of the loop of \<open>pollTasks\<close>: lock, and when the lock succeeded post the
  acknowledgement and add the \<open>execute\<close> job. The result says whether the lock succeeded.
\<close>

definition claim_task :: "timestamp \<Rightarrow> LinearTask \<Rightarrow> world \<Rightarrow> bool \<times> world" where
  "claim_task now task w0 =
     (let (locked, w1) = on_linear (lockTask (lt_id task)) w0
      in if \<not> locked then (False, w1)
         else
           (let (_, w2) = on_linear (addComment now (lt_id task)
                   (emoji_rocket @ '' Task received by system, execution starting soon...'')) w1
            in (True, queue_add ''execute'' (ExecuteData task) w2)))"

definition pollTasks :: "timestamp \<Rightarrow> world \<Rightarrow> world" where
  "pollTasks now w0 =
     (if taskPollerPolling w0 then w0
      else
        (let w1 = w0\<lparr>taskPollerPolling := True\<rparr>;
             (tasks, w2) = on_linear (getTasksByStatus TODO) w1;
             w3 = fold (\<lambda>task w. snd (claim_task now task w)) tasks w2
         in w3\<lparr>taskPollerPolling := False\<rparr>))"

text \<open>The marker that identifies a comment as system-generated: the robot emoji, a space, a newline.\<close>

definition system_marker :: string where
  "system_marker = emoji_robot @ '' '' @ newline"

text \<open>\<open>Array.prototype.join\<close>.\<close>

fun join :: "string \<Rightarrow> string list \<Rightarrow> string" where
  "join sep [] = []"
| "join sep [x] = x"
| "join sep (x # y # ys) = x @ sep @ join sep (y # ys)"

definition feedback_separator :: string where
  "feedback_separator = newline @ newline @ ''---'' @ newline @ newline"

text \<open>The filter of \<open>pollReviewTasks\<close> on the comments of one task.\<close>

definition newUserComments :: "session_store \<Rightarrow> LinearComment list \<Rightarrow> LinearComment list" where
  "newUserComments db cs =
     filter (\<lambda>c. \<not> startsWith (c_body c) system_marker \<and> \<not> isCommentProcessed (c_id c) db) cs"

text \<open>One iteration of the loop of \<open>pollReviewTasks\<close>.\<close>

definition review_task :: "LinearTask \<Rightarrow> world \<Rightarrow> world" where
  "review_task task w0 =
     (case Option.bind (getSessionByTaskId (lt_id task) (sessionStore w0))
                       (\<lambda>r. Option.bind (session_id r) or_null) of
        None \<Rightarrow> w0
      | Some sid \<Rightarrow>
          (let (cs, w1) = on_linear (getComments (lt_id task)) w0;
               new = newUserComments (sessionStore w1) cs
           in if new = [] then w1
              else queue_add ''feedback''
                     (FeedbackData \<lparr>fj_task = task,
                                    fj_feedback = join feedback_separator (map c_body new),
                                    fj_commentIds = map c_id new,
                                    fj_sessionId = sid\<rparr>) w1))"

definition pollReviewTasks :: "world \<Rightarrow> world" where
  "pollReviewTasks w0 =
     (if reviewPollerPolling w0 then w0
      else
        (let w1 = w0\<lparr>reviewPollerPolling := True\<rparr>;
             (tasks, w2) = on_linear (getTasksByStatus IN_REVIEW) w1;
             w3 = fold review_task tasks w2
         in w3\<lparr>reviewPollerPolling := False\<rparr>))"


text \<open>A task that is running and has its row in \<open>task_sessions\<close>.\<close>

definition tracked :: "string \<Rightarrow> world \<Rightarrow> bool" where
  "tracked i w = (runningTasks w i \<noteq> None \<and> task_sessions (sessionStore w) i \<noteq> None)"


section \<open>Start-up state and example data\<close>

text \<open>The services' fields as their initialisers leave them, around a given tracker.\<close>

definition initial_world :: "linear \<Rightarrow> int option \<Rightarrow> world" where
  "initial_world L tmo =
     \<lparr>runningTasks = Map.empty, taskHistory = Map.empty, isPaused = False,
      sessionStore = \<lparr>task_sessions = Map.empty, processed_comments = Map.empty\<rparr>,
      gateway = [], linearService = L, taskQueue = [], taskTimeout = tmo,
      taskPollerPolling = False, reviewPollerPolling = False\<rparr>"

text \<open>A process restart: what \<open>MonitorService\<close> held in memory is gone, the rest stays.\<close>

definition restarted :: "world \<Rightarrow> world" where
  "restarted w = w\<lparr>runningTasks := Map.empty, taskHistory := Map.empty\<rparr>"

text \<open>An example team workflow, a configured service on it, and an issue without description.\<close>

definition example_states :: "TaskStatus \<rightharpoonup> string" where
  "example_states =
     map_of [(TODO, ''state-todo''), (IN_PROGRESS, ''state-in-progress''),
             (IN_REVIEW, ''state-in-review''), (DONE, ''state-done''),
             (FAILED, ''state-failed'')]"

definition example_linear :: "issue list \<Rightarrow> linear" where
  "example_linear is =
     \<lparr>isConfigured = True, teamIdSet = True, stateCache = example_states, apiKeySet = True,
      team_found = True, api_user = ''user-bot'', workflow_states = example_states,
      issues = is, comments = [],
      comment_counter = 0\<rparr>"

definition example_task :: "string \<Rightarrow> string \<Rightarrow> string \<Rightarrow> LinearTask" where
  "example_task id' identifier title =
     \<lparr>lt_id = id', lt_identifier = identifier, lt_title = title,
      lt_description = None, lt_priority = None, lt_createdAt = 0\<rparr>"

definition example_issue :: "string \<Rightarrow> string \<Rightarrow> string \<Rightarrow> TaskStatus \<Rightarrow> issue" where
  "example_issue id' identifier title st =
     \<lparr>i_task = example_task id' identifier title,
      i_stateId = (case example_states st of Some s \<Rightarrow> s | None \<Rightarrow> [])\<rparr>"

text \<open>A task started and completed at once, and task ids that differ pairwise.\<close>

definition start_complete :: "string \<Rightarrow> (timestamp \<times> monitor_call) list" where
  "start_complete taskId =
     [(0, Started taskId taskId taskId), (1, CompletedCall taskId True None)]"

definition distinct_ids :: "nat \<Rightarrow> string list" where
  "distinct_ids n = map (\<lambda>i. replicate i (CHR ''x'')) [0..<n]"

text \<open>
  Two runs of the agent: one that reports a session id, calls a tool and answers, and
  one whose answer carries the failure marker (the cross emoji and the word "failed").
\<close>

definition run_ok :: agent_run where
  "run_ok =
     \<lparr>ar_messages = [SystemMsg True (Some ''sess-1''),
                     AssistantMsg (Some [ToolUseBlock ''Bash'', TextBlock ''All done.'']),
                     ResultMsg True (Some ''ok'')],
      ar_throws = None\<rparr>"

definition run_reports_failure :: agent_run where
  "run_reports_failure =
     \<lparr>ar_messages = [SystemMsg True (Some ''sess-2''),
                     AssistantMsg (Some [TextBlock (emoji_cross @ '' the build failed'')])],
      ar_throws = None\<rparr>"

definition run_silent :: agent_run where
  "run_silent =
     \<lparr>ar_messages = [AssistantMsg (Some [TextBlock ''Nothing to do.''])], ar_throws = None\<rparr>"

text \<open>The surroundings of a run that starts at \<open>now\<close> and streams for a second.\<close>

definition example_ctx :: "agent_run \<Rightarrow> timestamp \<Rightarrow> run_ctx" where
  "example_ctx run now =
     \<lparr>rc_auth = ApiKey, rc_run = run, rc_now = now, rc_fin = now + 1000, rc_attemptsMade = 0,
      rc_attempts = 3, rc_stmt_throws = (\<lambda>_. False), rc_db_error = ''database error''\<rparr>"

text \<open>A tracker with one issue "Write changelog" in Todo and no comment, at start-up.\<close>

definition changelog_task :: LinearTask where
  "changelog_task = example_task ''i1'' ''X-1'' ''Write changelog''"

definition changelog_world :: world where
  "changelog_world =
     initial_world (example_linear [example_issue ''i1'' ''X-1'' ''Write changelog'' TODO])
       (Some 10800000)"

text \<open>
  A tracker with one issue "Fix typo" in In Review, and the feedback job for a human
  comment "looks good" on it.
\<close>

definition typo_world :: world where
  "typo_world =
     initial_world (example_linear [example_issue ''i2'' ''X-2'' ''Fix typo'' IN_REVIEW])
       (Some 10800000)"

definition typo_feedback :: FeedbackJob where
  "typo_feedback =
     \<lparr>fj_task = example_task ''i2'' ''X-2'' ''Fix typo'', fj_feedback = ''looks good'',
      fj_commentIds = [''c-human-1''], fj_sessionId = ''sess-1''\<rparr>"

text \<open>
  Three jobs on "Fix typo": an execute job whose run reports failure, a retry whose run
  succeeds, and a feedback job whose run reports no session id.
\<close>

definition typo_jobs :: "(run_ctx \<times> job_data) list" where
  "typo_jobs =
     [(example_ctx run_reports_failure 0, ExecuteData (example_task ''i2'' ''X-2'' ''Fix typo'')),
      (example_ctx run_ok 5000,
       RetryData \<lparr>rj_task = example_task ''i2'' ''X-2'' ''Fix typo'', rj_sessionId = ''sess-2''\<rparr>),
      (example_ctx run_silent 9000, FeedbackData typo_feedback)]"

text \<open>The payloads of the feedback jobs in the queue.\<close>

definition feedback_jobs :: "world \<Rightarrow> FeedbackJob list" where
  "feedback_jobs w =
     concat (map (\<lambda>j. case job_payload j of FeedbackData d \<Rightarrow> [d] | _ \<Rightarrow> []) (taskQueue w))"


section \<open>The queue's retry policy\<close>

text \<open>
  Modelled from the spec: the retry policy of the queue. The queue is the Bull library,
  which is not among the sources; the source only passes it the options of
  \<open>default_job_opts\<close> and throws from its handlers. The spec (section 4.3): on a handler
  exception, if \<open>attempts < maxAttempts\<close> the job is requeued after
  \<open>delay = baseDelay * 2^(attempts-1)\<close>, otherwise it is marked terminally failed.
\<close>

definition retry_delay :: "job_opts \<Rightarrow> nat \<Rightarrow> int" where
  "retry_delay opts attemptsMade =
     (case backoff_kind opts of
        Exponential \<Rightarrow> backoff_delay opts * 2 ^ (attemptsMade - 1))"

datatype job_end = JobCompleted | JobTerminallyFailed | JobWaiting

text \<open>
  Modelled from the spec: one job through the queue. \<open>threw\<close> lists, attempt by attempt,
  whether the handler threw; \<open>attemptsMade\<close> counts the attempts including the current
  one. The result is the delays observed before the retries and how the job ended
  (\<open>JobWaiting\<close>: the list ends before the job does).
\<close>

fun queue_run :: "job_opts \<Rightarrow> nat \<Rightarrow> bool list \<Rightarrow> int list \<times> job_end" where
  "queue_run opts attemptsMade [] = ([], JobWaiting)"
| "queue_run opts attemptsMade (threw # rest) =
     (if \<not> threw then ([], JobCompleted)
      else if attemptsMade < attempts opts
      then (let (delays, e) = queue_run opts (Suc attemptsMade) rest
            in (retry_delay opts attemptsMade # delays, e))
      else ([], JobTerminallyFailed))"


section \<open>Frame lemmas of the monitor\<close>

lemma broadcast_frame [simp]:
  "runningTasks (broadcast e w) = runningTasks w"
  "taskHistory (broadcast e w) = taskHistory w"
  "sessionStore (broadcast e w) = sessionStore w"
  "linearService (broadcast e w) = linearService w"
  "taskQueue (broadcast e w) = taskQueue w"
  "gateway (broadcast e w) = gateway w @ [e]"
  by (simp_all add: broadcast_def)

lemma count_status_frame [simp]:
  "runningTasks (snd (count_status st w)) = runningTasks w"
  "taskHistory (snd (count_status st w)) = taskHistory w"
  "sessionStore (snd (count_status st w)) = sessionStore w"
  "taskQueue (snd (count_status st w)) = taskQueue w"
  "gateway (snd (count_status st w)) = gateway w"
  by (simp_all add: count_status_def on_linear_def split: prod.splits)

lemma refreshStats_frame [simp]:
  "runningTasks (refreshStats w) = runningTasks w"
  "taskHistory (refreshStats w) = taskHistory w"
  "sessionStore (refreshStats w) = sessionStore w"
  "taskQueue (refreshStats w) = taskQueue w"
  by (simp_all add: refreshStats_def Let_def split_beta)

lemma taskCompleted_running:
  "runningTasks (taskCompleted now taskId suc summary w) = (runningTasks w)(taskId := None)"
  by (auto simp: taskCompleted_def Let_def split: option.splits)

lemma taskCompleted_noop:
  "runningTasks w taskId = None \<Longrightarrow> taskCompleted now taskId suc summary w = w"
  by (simp add: taskCompleted_def)

lemma taskProgress_noop:
  "runningTasks w taskId = None \<Longrightarrow> taskProgress now taskId step pct w = w"
  by (simp add: taskProgress_def)

lemma apply_calls_append: "apply_calls (xs @ ys) w = apply_calls ys (apply_calls xs w)"
  by (simp add: apply_calls_def)

lemma apply_call_absent:
  assumes "runningTasks w taskId = None" and "\<not> is_start taskId (snd c)"
  shows "runningTasks (apply_call c w) taskId = None"
proof -
  obtain now call where c: "c = (now, call)" by (cases c)
  show ?thesis
    using assms unfolding c
    by (cases call)
       (auto simp: taskStarted_def taskProgress_def taskSessionId_def taskCompleted_running
          Let_def split: option.splits)
qed

lemma apply_calls_absent:
  "runningTasks w taskId = None \<Longrightarrow> list_all (\<lambda>c. \<not> is_start taskId (snd c)) cs \<Longrightarrow>
   runningTasks (apply_calls cs w) taskId = None"
  unfolding apply_calls_def
  by (induction cs arbitrary: w) (auto simp: apply_call_absent)

lemma running_taskStarted:
  "runningTasks (taskStarted now taskId i t w) taskId \<noteq> None"
  by (simp add: taskStarted_def Let_def)


section \<open>Progress after completion\<close>

text \<open>
  Claim C7. Once \<open>taskCompleted\<close> has been called for a task id, and whatever other calls
  follow as long as none of them is a \<open>taskStarted\<close> for that id, the id is absent from the
  running-task map and a \<open>taskProgress\<close> for it returns the state as it was: the map, the
  broadcast events and everything else are unchanged. In particular progress on an
  absent id inserts no entry.
\<close>

theorem progress_no_resurrection:
  assumes "list_all (\<lambda>c. \<not> is_start taskId (snd c)) cs"
  shows "(let w1 = apply_calls cs (taskCompleted now taskId suc summary w)
          in runningTasks w1 taskId = None \<and> taskProgress now' taskId step pct w1 = w1) \<and>
         (runningTasks w' taskId = None \<longrightarrow> taskProgress now' taskId step pct w' = w')"
proof -
  have "runningTasks (taskCompleted now taskId suc summary w) taskId = None"
    by (simp add: taskCompleted_running)
  then have "runningTasks (apply_calls cs (taskCompleted now taskId suc summary w)) taskId = None"
    using assms by (rule apply_calls_absent)
  then show ?thesis by (simp add: Let_def taskProgress_noop)
qed

theorem progress_no_resurrection_witness:
  "(let w1 = apply_calls [(20, Progress ''t2'' ''other'' 30), (25, SessionId ''t1'' ''late'')]
               (taskCompleted 10 ''t1'' True None
                  (taskStarted 0 ''t1'' ''X-1'' ''Fix typo''
                     (initial_world (example_linear []) None)))
    in runningTasks w1 ''t1'' = None \<and> taskProgress 30 ''t1'' ''step'' 50 w1 = w1) \<and>
   runningTasks (initial_world (example_linear []) None) ''t1'' = None \<and>
   taskProgress 30 ''t1'' ''step'' 50 (initial_world (example_linear []) None) =
     initial_world (example_linear []) None"
proof -
  have absent: "runningTasks (initial_world (example_linear []) None) ''t1'' = None"
    by (simp add: initial_world_def)
  show ?thesis
    using progress_no_resurrection
            [of "''t1''" "[(20, Progress ''t2'' ''other'' 30), (25, SessionId ''t1'' ''late'')]"
                10 True None
                "taskStarted 0 ''t1'' ''X-1'' ''Fix typo'' (initial_world (example_linear []) None)"
                30 "''step''" 50 "initial_world (example_linear []) None"]
      absent
    by simp
qed


section \<open>Completion of an unknown task\<close>

text \<open>
  Claim C10. \<open>taskCompleted\<close> for an id that is not in the running-task map returns the
  state unchanged: nothing is added to the task history, nothing is written to the
  session store (so a row keeps its empty \<open>completed_at\<close>), and nothing is broadcast.
\<close>

theorem completed_unknown_noop:
  assumes "runningTasks w taskId = None"
  shows "(let w' = taskCompleted now taskId suc summary w
          in w' = w \<and> taskHistory w' = taskHistory w \<and> sessionStore w' = sessionStore w \<and>
             gateway w' = gateway w)"
  using assms by (simp add: taskCompleted_noop)

theorem completed_unknown_noop_witness:
  "(let w = restarted (taskStarted 0 ''t1'' ''X-1'' ''Fix typo''
                         (initial_world (example_linear []) None));
        w' = taskCompleted 10 ''t1'' True None w
    in w' = w \<and> taskHistory w' = taskHistory w \<and> sessionStore w' = sessionStore w \<and>
       gateway w' = gateway w \<and>
       map_option completed_at (task_sessions (sessionStore w') ''t1'') = Some None)"
proof -
  let ?w = "restarted (taskStarted 0 ''t1'' ''X-1'' ''Fix typo''
                         (initial_world (example_linear []) None))"
  have r: "runningTasks ?w ''t1'' = None" by (simp add: restarted_def)
  have c: "map_option completed_at (task_sessions (sessionStore ?w) ''t1'') = Some None"
    by (simp add: restarted_def taskStarted_def Let_def initial_world_def saveSession_def)
  show ?thesis
    using completed_unknown_noop [OF r, of 10 True None] c by (simp add: Let_def)
qed


section \<open>The completed-task history\<close>

lemma history_apply_call_mono:
  "dom (taskHistory w) \<subseteq> dom (taskHistory (apply_call c w))"
proof -
  obtain now call where c: "c = (now, call)" by (cases c)
  show ?thesis
    unfolding c
    by (cases call)
       (auto simp: taskStarted_def taskProgress_def taskSessionId_def taskCompleted_def
          Let_def split: option.splits)
qed

lemma history_apply_calls_mono:
  "dom (taskHistory w) \<subseteq> dom (taskHistory (apply_calls cs w))"
  unfolding apply_calls_def
proof (induction cs arbitrary: w)
  case Nil
  show ?case by simp
next
  case (Cons c cs)
  show ?case
    using history_apply_call_mono[of w c] Cons.IH[of "apply_call c w"] by auto
qed

lemma history_taskCompleted:
  "runningTasks w taskId = Some info \<Longrightarrow>
   taskHistory (taskCompleted now taskId suc summary w) =
     (taskHistory w)(taskId \<mapsto> \<lparr>th_taskId = taskId, th_identifier = rt_identifier info,
        th_title = rt_title info, th_sessionId = rt_sessionId info,
        th_startedAt = rt_startedAt info, th_completedAt = now, th_success = suc\<rparr>)"
  by (simp add: taskCompleted_def Let_def)

lemma history_start_complete:
  "dom (taskHistory (apply_calls (start_complete t) w)) = insert t (dom (taskHistory w))"
proof -
  have "runningTasks (taskStarted 0 t t t w) t \<noteq> None"
    by (rule running_taskStarted)
  then obtain info where "runningTasks (taskStarted 0 t t t w) t = Some info"
    by auto
  from history_taskCompleted[OF this, of 1 True None]
  have "dom (taskHistory (taskCompleted 1 t True None (taskStarted 0 t t t w))) =
          insert t (dom (taskHistory (taskStarted 0 t t t w)))"
    by simp
  moreover have "taskHistory (taskStarted 0 t t t w) = taskHistory w"
    by (simp add: taskStarted_def Let_def)
  ultimately show ?thesis
    by (simp add: start_complete_def apply_calls_def)
qed

lemma history_many:
  "dom (taskHistory (apply_calls (concat (map start_complete ts)) w)) =
     set ts \<union> dom (taskHistory w)"
proof (induction ts arbitrary: w)
  case Nil
  show ?case by (simp add: apply_calls_def)
next
  case (Cons t ts)
  show ?case
    using Cons.IH[of "apply_calls (start_complete t) w"] history_start_complete[of t w]
    by (simp add: apply_calls_append)
qed

lemma card_distinct_ids: "card (set (distinct_ids n)) = n"
proof -
  have "inj_on (\<lambda>i. replicate i (CHR ''x'')) {0..<n}"
    by (rule inj_onI) (metis length_replicate)
  then have "card ((\<lambda>i. replicate i (CHR ''x'')) ` {0..<n}) = card {0..<n}"
    by (rule card_image)
  then show ?thesis by (simp add: distinct_ids_def)
qed

text \<open>
  Claim C9 as stated fails in its second half: no constant bounds the number of entries
  of \<open>taskHistory\<close>. Starting from the start-up state, completing \<open>K + 1\<close> tasks with
  different ids leaves \<open>K + 1\<close> entries.
\<close>

theorem history_unbounded:
  "\<not> (\<exists>K. \<forall>cs. card (dom (taskHistory
                   (apply_calls cs (initial_world (example_linear []) None)))) \<le> K)"
proof
  assume "\<exists>K. \<forall>cs. card (dom (taskHistory
                    (apply_calls cs (initial_world (example_linear []) None)))) \<le> K"
  then obtain K where K:
    "\<And>cs. card (dom (taskHistory
               (apply_calls cs (initial_world (example_linear []) None)))) \<le> K"
    by blast
  let ?cs = "concat (map start_complete (distinct_ids (Suc K)))"
  have "dom (taskHistory (apply_calls ?cs (initial_world (example_linear []) None))) =
          set (distinct_ids (Suc K))"
    by (simp add: history_many initial_world_def)
  then have "card (dom (taskHistory
               (apply_calls ?cs (initial_world (example_linear []) None)))) = Suc K"
    by (simp add: card_distinct_ids)
  with K[of ?cs] show False by simp
qed

text \<open>
  Claim C9, amended. \<open>taskCompleted\<close> on a running task id removes the entry from the
  running-task map and stores it in \<open>taskHistory\<close> under its task id, replacing only an
  earlier entry for the same id; the history gains that one key, and no later call of the
  monitor removes a key from it.
\<close>

theorem complete_moves_to_history:
  assumes "runningTasks w taskId = Some info"
  shows "(let w' = taskCompleted now taskId suc summary w
          in runningTasks w' taskId = None \<and>
             taskHistory w' taskId =
               Some \<lparr>th_taskId = taskId, th_identifier = rt_identifier info,
                     th_title = rt_title info, th_sessionId = rt_sessionId info,
                     th_startedAt = rt_startedAt info, th_completedAt = now,
                     th_success = suc\<rparr> \<and>
             dom (taskHistory w') = insert taskId (dom (taskHistory w)) \<and>
             taskHistory w' |` (- {taskId}) = taskHistory w |` (- {taskId}) \<and>
             dom (taskHistory w') \<subseteq> dom (taskHistory (apply_calls cs w')))"
  using assms history_apply_calls_mono[of "taskCompleted now taskId suc summary w" cs]
  by (simp add: Let_def taskCompleted_running history_taskCompleted)

theorem complete_moves_to_history_witness:
  "(let w = taskStarted 0 ''t1'' ''X-1'' ''Fix typo'' (initial_world (example_linear []) None);
        w' = taskCompleted 10 ''t1'' True None w
    in runningTasks w ''t1'' \<noteq> None \<and> runningTasks w' ''t1'' = None \<and>
       map_option th_success (taskHistory w' ''t1'') = Some True \<and>
       dom (taskHistory w') = {''t1''})"
proof -
  let ?w = "taskStarted 0 ''t1'' ''X-1'' ''Fix typo'' (initial_world (example_linear []) None)"
  let ?info = "\<lparr>rt_taskId = ''t1'', rt_identifier = ''X-1'', rt_title = ''Fix typo'',
                rt_progress = 0, rt_currentStep = None, rt_steps = [],
                rt_startedAt = 0, rt_sessionId = None\<rparr>"
  have r: "runningTasks ?w ''t1'' = Some ?info"
    by (simp add: taskStarted_def Let_def)
  have h: "taskHistory ?w = Map.empty"
    by (simp add: taskStarted_def Let_def initial_world_def)
  show ?thesis
    using complete_moves_to_history [OF r, of 10 True None "[]"] r h
    by (simp add: Let_def)
qed


section \<open>The stored session id\<close>

lemma captured_append: "captured (xs @ ys) = captured xs @ captured ys"
  by (induction xs rule: captured.induct) auto

lemma stored_taskStarted:
  "stored_session_id taskId (taskStarted now taskId i t w) = stored_session_id taskId w"
  by (simp add: stored_session_id_def taskStarted_def Let_def saveSession_def or_null_def
      coalesce_def split: option.splits)

lemma row_taskStarted:
  "task_sessions (sessionStore (taskStarted now taskId i t w)) taskId \<noteq> None"
  by (simp add: taskStarted_def Let_def saveSession_def split: option.splits)

lemma stored_taskCompleted:
  "stored_session_id taskId (taskCompleted now t s sm w) = stored_session_id taskId w"
  by (auto simp: stored_session_id_def taskCompleted_def Let_def completeTask_def
      split: option.splits)

text \<open>
  While a task is running and has its row, progress and session-id callbacks keep both,
  and the stored session id is the last one reported.
\<close>

lemma body_calls:
  assumes "runningTasks w taskId \<noteq> None" "task_sessions (sessionStore w) taskId \<noteq> None"
    and "list_all (\<lambda>d. run_body_call taskId (snd d)) cs"
  shows "runningTasks (apply_calls cs w) taskId \<noteq> None \<and>
         task_sessions (sessionStore (apply_calls cs w)) taskId \<noteq> None \<and>
         stored_session_id taskId (apply_calls cs w) =
           (case last_option (captured cs) of
              None \<Rightarrow> stored_session_id taskId w
            | Some sid \<Rightarrow> Some sid)"
  using assms
proof (induction cs arbitrary: w)
  case Nil
  then show ?case by (simp add: apply_calls_def last_option_def)
next
  case (Cons c cs)
  obtain now call where c: "c = (now, call)" by (cases c)
  from Cons.prems(3) have body: "run_body_call taskId call"
    and rest: "list_all (\<lambda>d. run_body_call taskId (snd d)) cs"
    by (simp_all add: c)
  obtain info where info: "runningTasks w taskId = Some info"
    using Cons.prems(1) by auto
  obtain r where r: "task_sessions (sessionStore w) taskId = Some r"
    using Cons.prems(2) by auto
  show ?case
  proof (cases call)
    case (Progress t step pct)
    with body have t: "t = taskId" by simp
    let ?w = "taskProgress now taskId step pct w"
    have 1: "runningTasks ?w taskId \<noteq> None" "task_sessions (sessionStore ?w) taskId \<noteq> None"
      "stored_session_id taskId ?w = stored_session_id taskId w"
      using info r by (simp_all add: taskProgress_def Let_def stored_session_id_def)
    from Cons.IH[OF 1(1) 1(2) rest] show ?thesis
      by (simp add: c Progress t apply_calls_def 1(3) split: option.splits)
  next
    case (SessionId t sid)
    with body have t: "t = taskId" by simp
    let ?w = "taskSessionId now taskId sid w"
    have 1: "runningTasks ?w taskId \<noteq> None" "task_sessions (sessionStore ?w) taskId \<noteq> None"
      "stored_session_id taskId ?w = Some sid"
      using info r
      by (simp_all add: taskSessionId_def Let_def stored_session_id_def updateSessionId_def)
    from Cons.IH[OF 1(1) 1(2) rest] show ?thesis
      by (simp add: c SessionId t apply_calls_def 1(3) last_option_def
          split: option.splits if_splits)
  next
    case (Started x1 x2 x3)
    with body show ?thesis by simp
  next
    case (CompletedCall x1 x2 x3)
    with body show ?thesis by simp
  qed
qed

lemma captured_complete: "is_complete taskId (snd c) \<Longrightarrow> captured [c] = []"
  by (cases c; cases "snd c") auto

lemma captured_start: "is_start taskId (snd c) \<Longrightarrow> captured (c # cs) = captured cs"
  by (cases c; cases "snd c") auto

lemma one_run:
  assumes "is_run taskId cs"
  shows "stored_session_id taskId (apply_calls cs w) =
           (case last_option (captured cs) of
              None \<Rightarrow> stored_session_id taskId w
            | Some sid \<Rightarrow> Some sid)"
proof -
  from assms obtain c rest where cs: "cs = c # rest" by (cases cs) auto
  from assms cs have st: "is_start taskId (snd c)" and ne: "rest \<noteq> []"
    and comp: "is_complete taskId (snd (last rest))"
    and body: "list_all (\<lambda>d. run_body_call taskId (snd d)) (butlast rest)"
    by simp_all
  obtain now i t where c: "c = (now, Started taskId i t)"
    using st by (cases c; cases "snd c") auto
  obtain now' s sm where l: "last rest = (now', CompletedCall taskId s sm)"
    using comp by (cases "last rest"; cases "snd (last rest)") auto
  have rest: "rest = butlast rest @ [last rest]" using ne by simp
  let ?w1 = "taskStarted now taskId i t w"
  have b: "stored_session_id taskId (apply_calls (butlast rest) ?w1) =
             (case last_option (captured (butlast rest)) of
                None \<Rightarrow> stored_session_id taskId ?w1
              | Some sid \<Rightarrow> Some sid)"
    using body_calls[OF running_taskStarted row_taskStarted body] by blast
  have cap: "captured cs = captured (butlast rest)"
    using captured_append[of "butlast rest" "[last rest]"] rest captured_complete[OF comp]
      captured_start[OF st]
    by (simp add: cs)
  have "apply_calls cs w = apply_calls rest ?w1"
    by (simp add: cs c apply_calls_def)
  also have "\<dots> = apply_calls [last rest] (apply_calls (butlast rest) ?w1)"
    using apply_calls_append[of "butlast rest" "[last rest]" ?w1] rest by simp
  finally have "apply_calls cs w =
                  taskCompleted now' taskId s sm (apply_calls (butlast rest) ?w1)"
    by (simp add: l apply_calls_def)
  then show ?thesis
    by (simp add: stored_taskCompleted b cap stored_taskStarted split: option.splits)
qed

text \<open>
  For the monitor alone: after any number of sequential runs on one task (each a
  \<open>taskStarted\<close>, then progress and session-id callbacks, then a \<open>taskCompleted\<close>), the
  stored \<open>session_id\<close> is the last session id reported, or what it was when none was.
\<close>

lemma session_monotone_calls:
  assumes "list_all (is_run taskId) runs"
  shows "stored_session_id taskId (apply_calls (concat runs) w) =
           (case last_option (concat (map captured runs)) of
              None \<Rightarrow> stored_session_id taskId w
            | Some sid \<Rightarrow> Some sid)"
  using assms
proof (induction runs arbitrary: w)
  case Nil
  then show ?case by (simp add: apply_calls_def last_option_def)
next
  case (Cons r rs)
  then have r: "is_run taskId r" and rs: "list_all (is_run taskId) rs"
    by simp_all
  have "apply_calls (concat (r # rs)) w = apply_calls (concat rs) (apply_calls r w)"
    by (simp add: apply_calls_append)
  then show ?case
    using Cons.IH[OF rs, of "apply_calls r w"] one_run[OF r, of w]
    by (auto simp: last_option_def split: option.splits if_splits)
qed


section \<open>The review gate\<close>

lemma includes_str_iff: "includes_str s k \<longleftrightarrow> (\<exists>a b. s = a @ k @ b)"
proof (induction s)
  case Nil
  then show ?case by auto
next
  case (Cons c cs)
  show ?case
  proof
    assume "includes_str (c # cs) k"
    then consider "prefix k (c # cs)" | "includes_str cs k" by auto
    then show "\<exists>a b. c # cs = a @ k @ b"
    proof cases
      case 1
      then obtain b where "c # cs = k @ b" by (auto simp: prefix_def)
      then have "c # cs = [] @ k @ b" by simp
      then show ?thesis by blast
    next
      case 2
      with Cons.IH obtain a b where "cs = a @ k @ b" by auto
      then have "c # cs = (c # a) @ k @ b" by simp
      then show ?thesis by blast
    qed
  next
    assume "\<exists>a b. c # cs = a @ k @ b"
    then obtain a b where ab: "c # cs = a @ k @ b" by auto
    show "includes_str (c # cs) k"
    proof (cases a)
      case Nil
      with ab have "prefix k (c # cs)" by (simp add: prefixI)
      then show ?thesis by simp
    next
      case (Cons x xs)
      with ab have "cs = xs @ k @ b" by simp
      with Cons.IH show ?thesis by auto
    qed
  qed
qed

lemma includes_append_left: "includes_str s k \<Longrightarrow> includes_str (s @ t) k"
proof -
  assume "includes_str s k"
  then obtain a b where "s = a @ k @ b" by (auto simp: includes_str_iff)
  then have "s @ t = a @ k @ (b @ t)" by simp
  then show ?thesis unfolding includes_str_iff by blast
qed

text \<open>A keyword without a space occurs in \<open>title + ' ' + description\<close> only inside one of the two.\<close>

lemma includes_around_space:
  assumes "CHR '' '' \<notin> set k" "k \<noteq> []"
  shows "includes_str (p @ '' '' @ d) k \<longleftrightarrow> includes_str p k \<or> includes_str d k"
proof
  assume "includes_str (p @ '' '' @ d) k"
  then obtain a b where ab: "p @ CHR '' '' # d = a @ k @ b"
    by (auto simp: includes_str_iff)
  then consider us where "p = a @ us" "us @ CHR '' '' # d = k @ b"
    | us where "p @ us = a" "CHR '' '' # d = us @ k @ b"
    by (auto simp: append_eq_append_conv2)
  then show "includes_str p k \<or> includes_str d k"
  proof cases
    case 1
    from 1(2) consider vs where "us = k @ vs"
      | vs where "us @ vs = k" "CHR '' '' # d = vs @ b"
      by (auto simp: append_eq_append_conv2)
    then show ?thesis
    proof cases
      case 1
      with \<open>p = a @ us\<close> have "p = a @ k @ vs" by simp
      then show ?thesis unfolding includes_str_iff by blast
    next
      case 2
      show ?thesis
      proof (cases vs)
        case Nil
        with 2 \<open>p = a @ us\<close> have "p = a @ k @ []" by simp
        then show ?thesis unfolding includes_str_iff by blast
      next
        case (Cons v vs')
        with 2 have "v = CHR '' ''" by simp
        with 2(1) Cons assms(1) show ?thesis by auto
      qed
    qed
  next
    case 2
    show ?thesis
    proof (cases us)
      case Nil
      with 2(2) assms show ?thesis by (cases k) auto
    next
      case (Cons u us')
      with 2(2) have "d = us' @ k @ b" by simp
      then show ?thesis unfolding includes_str_iff by blast
    qed
  qed
next
  assume "includes_str p k \<or> includes_str d k"
  then show "includes_str (p @ '' '' @ d) k"
  proof
    assume "includes_str p k"
    then show ?thesis by (rule includes_append_left)
  next
    assume "includes_str d k"
    then obtain a b where "d = a @ k @ b" by (auto simp: includes_str_iff)
    then have "p @ '' '' @ d = (p @ '' '' @ a) @ k @ b" by simp
    then show ?thesis unfolding includes_str_iff by blast
  qed
qed

lemma checkNeedsReview_split:
  "checkNeedsReview task \<longleftrightarrow>
     list_ex (includes_str (toLowerCase (lt_title task))) REVIEW_KEYWORDS \<or>
     list_ex (includes_str (toLowerCase (or_empty (lt_description task)))) REVIEW_KEYWORDS"
proof -
  have kw: "\<forall>k \<in> set REVIEW_KEYWORDS. CHR '' '' \<notin> set k \<and> k \<noteq> []"
    by (simp add: REVIEW_KEYWORDS_def)
  have lc: "toLowerCase (lt_title task @ '' '' @ or_empty (lt_description task)) =
        toLowerCase (lt_title task) @ '' '' @ toLowerCase (or_empty (lt_description task))"
    by (simp add: toLowerCase_def lower_char_def)
  show ?thesis
    unfolding checkNeedsReview_def Let_def lc list_ex_iff
    using kw includes_around_space by blast
qed

lemma title_check_status:
  "\<not> list_ex (includes_str (toLowerCase ''Check status'')) REVIEW_KEYWORDS"
  by (simp add: REVIEW_KEYWORDS_def toLowerCase_def lower_char_def)

lemma title_write_changelog:
  "list_ex (includes_str (toLowerCase ''Write changelog'')) REVIEW_KEYWORDS"
  by (simp add: REVIEW_KEYWORDS_def toLowerCase_def lower_char_def)

lemma no_keyword_in_empty: "\<not> list_ex (includes_str (toLowerCase [])) REVIEW_KEYWORDS"
  by (simp add: REVIEW_KEYWORDS_def toLowerCase_def)

text \<open>
  Claim C8. \<open>checkNeedsReview\<close> is a function of the task's title and description and the
  fixed keyword list. A task titled "Write changelog" needs review whatever its
  description; a task titled "Check status" with no description does not, and with a
  description it needs review exactly when the description contains a keyword.
\<close>

theorem review_gate:
  "checkNeedsReview (task\<lparr>lt_title := ''Write changelog''\<rparr>) \<and>
   \<not> checkNeedsReview (task\<lparr>lt_title := ''Check status'', lt_description := None\<rparr>) \<and>
   (checkNeedsReview (task\<lparr>lt_title := ''Check status''\<rparr>) \<longleftrightarrow>
      list_ex (includes_str (toLowerCase (or_empty (lt_description task)))) REVIEW_KEYWORDS)"
proof -
  have 1: "checkNeedsReview (task\<lparr>lt_title := ''Write changelog''\<rparr>)"
    unfolding checkNeedsReview_split using title_write_changelog by simp
  have 2: "\<not> checkNeedsReview (task\<lparr>lt_title := ''Check status'', lt_description := None\<rparr>)"
    unfolding checkNeedsReview_split using title_check_status no_keyword_in_empty
    by (simp add: or_empty_def)
  have 3: "checkNeedsReview (task\<lparr>lt_title := ''Check status''\<rparr>) \<longleftrightarrow>
      list_ex (includes_str (toLowerCase (or_empty (lt_description task)))) REVIEW_KEYWORDS"
    unfolding checkNeedsReview_split using title_check_status by simp
  from 1 2 3 show ?thesis by blast
qed


section \<open>What the handlers leave alone\<close>

lemma on_linear_store [simp]: "sessionStore (snd (on_linear f w)) = sessionStore w"
  by (simp add: on_linear_def split_beta)

lemma on_linear_service [simp]: "linearService (snd (on_linear f w)) = snd (f (linearService w))"
  by (simp add: on_linear_def split_beta)

lemma refreshStateCache_issues [simp]: "issues (refreshStateCache L) = issues L"
  by (simp add: refreshStateCache_def)

lemma ensureClient_issues [simp]: "issues (snd (ensureClient L)) = issues L"
  by (simp add: ensureClient_def initializeClient_def)

lemma getTasksByStatus_issues [simp]: "issues (snd (getTasksByStatus st L)) = issues L"
  by (simp add: getTasksByStatus_def Let_def split_beta split: option.splits)

lemma addComment_issues [simp]: "issues (snd (addComment now i body L)) = issues L"
  by (auto simp: addComment_def createComment_def Let_def split_beta split: option.splits)

lemma count_status_issues [simp]:
  "issues (linearService (snd (count_status st w))) = issues (linearService w)"
  by (simp add: count_status_def split_beta)

lemma refreshStats_issues [simp]:
  "issues (linearService (refreshStats w)) = issues (linearService w)"
  by (simp add: refreshStats_def Let_def split_beta)

lemma monitor_ledger [simp]:
  "processed_comments (sessionStore (taskStarted now i n t w)) =
     processed_comments (sessionStore w)"
  "processed_comments (sessionStore (taskProgress now i s p w)) =
     processed_comments (sessionStore w)"
  "processed_comments (sessionStore (taskSessionId now i sid w)) =
     processed_comments (sessionStore w)"
  "processed_comments (sessionStore (taskCompleted now i suc sm w)) =
     processed_comments (sessionStore w)"
  by (simp_all add: taskStarted_def taskProgress_def taskSessionId_def taskCompleted_def Let_def
      saveSession_def updateSessionId_def completeTask_def split: option.splits)

lemma monitor_issues [simp]:
  "issues (linearService (taskStarted now i n t w)) = issues (linearService w)"
  "issues (linearService (taskProgress now i s p w)) = issues (linearService w)"
  "issues (linearService (taskSessionId now i sid w)) = issues (linearService w)"
  "issues (linearService (taskCompleted now i suc sm w)) = issues (linearService w)"
  by (simp_all add: taskStarted_def taskProgress_def taskSessionId_def taskCompleted_def Let_def
      split: option.splits)

lemma taskStarted_service [simp]: "linearService (taskStarted now i n t w) = linearService w"
  by (simp add: taskStarted_def Let_def)

text \<open>
  Whatever the two reporting callbacks and \<open>addComment\<close> leave unchanged (\<open>f\<close> reads it off
  the state), the streaming loop and \<open>executeFeedback\<close> leave unchanged.
\<close>

lemma process_block_keeps:
  assumes "\<And>t s p w. f (taskProgress t i s p w) = f w"
  shows "f (snd (process_block (monitor_callbacks i) t b vw)) = f (snd vw)"
  using assms
  by (cases vw; cases b) (simp_all add: process_block_def monitor_callbacks_def Let_def)

lemma blocks_keep:
  assumes "\<And>t s p w. f (taskProgress t i s p w) = f w"
  shows "f (snd (fold (process_block (monitor_callbacks i) t) bs vw)) = f (snd vw)"
proof (induction bs arbitrary: vw)
  case Nil
  show ?case by simp
next
  case (Cons b bs)
  have "f (snd (process_block (monitor_callbacks i) t b vw)) = f (snd vw)"
    using assms by (rule process_block_keeps[where f = f])
  then show ?case
    using Cons.IH[of "process_block (monitor_callbacks i) t b vw"] by simp
qed

lemma processMessage_keeps:
  assumes "\<And>t s p w. f (taskProgress t i s p w) = f w"
    and "\<And>t sid w. f (taskSessionId t i sid w) = f w"
  shows "f (snd (processMessage (monitor_callbacks i) t m vw)) = f (snd vw)"
proof (cases vw)
  case (Pair v w)
  show ?thesis
  proof (cases m)
    case (AssistantMsg bs)
    have "f (snd (fold (process_block (monitor_callbacks i) t) b (v, w))) = f w" for b
      using assms(1) blocks_keep[where f = f and vw = "(v, w)"] by simp
    then show ?thesis
      by (simp add: processMessage_def Pair AssistantMsg split: option.splits)
  next
    case (SystemMsg init sid)
    then show ?thesis
      using assms(2)
      by (simp add: processMessage_def Pair monitor_callbacks_def
          split: option.splits bool.splits)
  qed (simp_all add: processMessage_def Pair)
qed

lemma run_stream_keeps:
  assumes "\<And>t s p w. f (taskProgress t i s p w) = f w"
    and "\<And>t sid w. f (taskSessionId t i sid w) = f w"
  shows "f (snd (run_stream (monitor_callbacks i) t ms w)) = f w"
proof -
  have "f (snd (fold (processMessage (monitor_callbacks i) t) ms vw)) = f (snd vw)" for vw
  proof (induction ms arbitrary: vw)
    case Nil
    show ?case by simp
  next
    case (Cons m ms)
    have "f (snd (processMessage (monitor_callbacks i) t m vw)) = f (snd vw)"
      using assms by (rule processMessage_keeps[where f = f])
    then show ?case
      using Cons.IH[of "processMessage (monitor_callbacks i) t m vw"] by simp
  qed
  then show ?thesis by (simp add: run_stream_def)
qed

lemma executeFeedback_keeps:
  assumes "\<And>t s p w. f (taskProgress t i s p w) = f w"
    and "\<And>t sid w. f (taskSessionId t i sid w) = f w"
    and "\<And>t j b w. f (snd (on_linear (addComment t j b) w)) = f w"
  shows "f (snd (executeFeedback a run now fin task fbk sid (monitor_callbacks i) w)) = f w"
proof -
  have p: "onProgress (monitor_callbacks i) = (\<lambda>t s p. taskProgress t i s p)"
    by (simp add: monitor_callbacks_def)
  have "f (snd (run_stream (monitor_callbacks i) fin (ar_messages run) w')) = f w'" for w'
    using assms(1,2) by (rule run_stream_keeps[where f = f])
  then show ?thesis
    by (simp add: executeFeedback_def Let_def split_beta p assms split: option.splits)
qed

lemma executeFeedback_ledger:
  "processed_comments (sessionStore
     (snd (executeFeedback a run now fin task fbk sid (monitor_callbacks i) w))) =
   processed_comments (sessionStore w)"
  by (rule executeFeedback_keeps[where f = "\<lambda>w. processed_comments (sessionStore w)"])
     simp_all


lemma report_failure_ledger:
  "processed_comments (sessionStore (report_failure fin task h m am at w)) =
     processed_comments (sessionStore w)"
  by (simp add: report_failure_def Let_def split_beta)


section \<open>The session id across jobs\<close>

lemma session_part_progress:
  "runningTasks (taskProgress t i s p w) i \<noteq> None \<longleftrightarrow> runningTasks w i \<noteq> None"
  "task_sessions (sessionStore (taskProgress t i s p w)) = task_sessions (sessionStore w)"
  by (simp_all add: taskProgress_def Let_def split: option.splits)

lemma session_part_on_linear:
  "runningTasks (snd (on_linear f w)) = runningTasks w"
  "task_sessions (sessionStore (snd (on_linear f w))) = task_sessions (sessionStore w)"
  by (simp_all add: on_linear_def split_beta)

lemma stored_on_linear [simp]:
  "stored_session_id i (snd (on_linear f w)) = stored_session_id i w"
  by (simp add: stored_session_id_def session_part_on_linear)

lemma stored_taskProgress [simp]:
  "stored_session_id i (taskProgress t j s p w) = stored_session_id i w"
  by (simp add: stored_session_id_def taskProgress_def Let_def split: option.splits)

lemma tracked_taskProgress [simp]: "tracked i (taskProgress t i s p w) = tracked i w"
  by (auto simp: tracked_def taskProgress_def Let_def split: option.splits)

lemma tracked_on_linear [simp]: "tracked i (snd (on_linear f w)) = tracked i w"
  by (simp add: tracked_def session_part_on_linear)

lemma tracked_taskStarted [simp]: "tracked i (taskStarted now i n t w)"
  by (simp add: tracked_def taskStarted_def Let_def saveSession_def split: option.splits)

lemma tracked_taskSessionId:
  "tracked i w \<Longrightarrow> tracked i (taskSessionId t i sid w) \<and>
     stored_session_id i (taskSessionId t i sid w) = Some sid"
  by (auto simp: tracked_def taskSessionId_def Let_def updateSessionId_def stored_session_id_def
      split: option.splits)

lemma blocks_tracked:
  "tracked i (snd (fold (process_block (monitor_callbacks i) t) bs vw)) = tracked i (snd vw)"
  by (rule blocks_keep[where f = "tracked i"]) simp

lemma blocks_stored:
  "stored_session_id i (snd (fold (process_block (monitor_callbacks i) t) bs vw)) =
     stored_session_id i (snd vw)"
  by (rule blocks_keep[where f = "stored_session_id i"]) simp

lemma processMessage_session:
  assumes "tracked i (snd vw)"
  shows "tracked i (snd (processMessage (monitor_callbacks i) t m vw)) \<and>
         stored_session_id i (snd (processMessage (monitor_callbacks i) t m vw)) =
           (case last_option (stream_sessions [m]) of
              None \<Rightarrow> stored_session_id i (snd vw)
            | Some sid \<Rightarrow> Some sid)"
proof (cases vw)
  case (Pair v w)
  with assms have tr: "tracked i w" by simp
  show ?thesis
  proof (cases m)
    case (AssistantMsg bs)
    then show ?thesis
      using tr blocks_tracked[of i t _ "(v, w)"] blocks_stored[of i t _ "(v, w)"]
      by (simp add: processMessage_def Pair last_option_def split: option.splits)
  next
    case (SystemMsg init sid)
    then show ?thesis
      using tr tracked_taskSessionId[OF tr]
      by (cases init; cases sid)
         (auto simp: processMessage_def Pair monitor_callbacks_def last_option_def)
  qed (simp_all add: processMessage_def Pair tr last_option_def)
qed

lemma stream_sessions_Cons:
  "stream_sessions (m # ms) = stream_sessions [m] @ stream_sessions ms"
  by (induction "[m]" rule: stream_sessions.induct) auto

lemma fold_session:
  assumes "tracked i (snd vw)"
  shows "tracked i (snd (fold (processMessage (monitor_callbacks i) t) ms vw)) \<and>
         stored_session_id i (snd (fold (processMessage (monitor_callbacks i) t) ms vw)) =
           (case last_option (stream_sessions ms) of
              None \<Rightarrow> stored_session_id i (snd vw)
            | Some sid \<Rightarrow> Some sid)"
  using assms
proof (induction ms arbitrary: vw)
  case Nil
  then show ?case by (simp add: last_option_def)
next
  case (Cons m ms)
  let ?vw = "processMessage (monitor_callbacks i) t m vw"
  from processMessage_session[OF Cons.prems, of t m]
  have 1: "tracked i (snd ?vw)"
    and 2: "stored_session_id i (snd ?vw) =
             (case last_option (stream_sessions [m]) of
                None \<Rightarrow> stored_session_id i (snd vw) | Some sid \<Rightarrow> Some sid)"
    by simp_all
  from Cons.IH[OF 1] show ?case
    by (subst stream_sessions_Cons)
       (auto simp: 2 last_option_def split: option.splits if_splits)
qed

lemma run_stream_session:
  assumes "tracked i w"
  shows "tracked i (snd (run_stream (monitor_callbacks i) t ms w)) \<and>
         stored_session_id i (snd (run_stream (monitor_callbacks i) t ms w)) =
           (case last_option (stream_sessions ms) of
              None \<Rightarrow> stored_session_id i w
            | Some sid \<Rightarrow> Some sid)"
  using fold_session[of i "(\<lparr>responseText = [], lastProgress = 10, toolCallCount = 0, sv_sessionId = None\<rparr>, w)" t ms] assms
  by (simp add: run_stream_def split: option.splits)

lemma executeTask_session:
  assumes "tracked i w"
  shows "stored_session_id i (snd (executeTask a run now fin task (monitor_callbacks i) w)) =
           (case last_option (stream_sessions (ar_messages run)) of
              None \<Rightarrow> stored_session_id i w
            | Some sid \<Rightarrow> Some sid)"
proof -
  have p: "onProgress (monitor_callbacks i) = (\<lambda>t s p. taskProgress t i s p)"
    by (simp add: monitor_callbacks_def)
  let ?w1 = "taskProgress now i (emoji_rocket @ '' Starting task execution'') 10 w"
  have "tracked i ?w1" using assms by simp
  from run_stream_session[OF this, of fin "ar_messages run"]
  show ?thesis
    by (simp add: executeTask_def Let_def split_beta p split: option.splits)
qed

lemma executeFeedback_session:
  assumes "tracked i w"
  shows "stored_session_id i (snd (executeFeedback a run now fin task fbk sid (monitor_callbacks i) w)) =
           (case last_option (stream_sessions (ar_messages run)) of
              None \<Rightarrow> stored_session_id i w
            | Some sid \<Rightarrow> Some sid)"
proof -
  have p: "onProgress (monitor_callbacks i) = (\<lambda>t s p. taskProgress t i s p)"
    by (simp add: monitor_callbacks_def)
  let ?w1 = "taskProgress now i (emoji_cycle @ '' Processing feedback'') 10 w"
  have "tracked i ?w1" using assms by simp
  from run_stream_session[OF this, of fin "ar_messages run"]
  show ?thesis
    by (simp add: executeFeedback_def Let_def split_beta p split: option.splits)
qed

lemma stored_report_failure [simp]:
  "stored_session_id i (report_failure fin task h m am at w) = stored_session_id i w"
  by (simp add: report_failure_def Let_def split_beta stored_taskCompleted)

lemma stored_store_update:
  "task_sessions db = task_sessions (sessionStore w) \<Longrightarrow>
   stored_session_id i (w\<lparr>sessionStore := db\<rparr>) = stored_session_id i w"
  by (simp add: stored_session_id_def)

lemma markCommentsProcessed_sessions:
  "task_sessions (fst (markCommentsProcessed th now ids tid db)) = task_sessions db"
  by (simp add: markCommentsProcessed_def split: option.splits)

lemma handleTask_session:
  "stored_session_id (lt_id task) (snd (handleTask a run now fin am at task w)) =
     (case last_option (stream_sessions (ar_messages run)) of
        None \<Rightarrow> stored_session_id (lt_id task) w
      | Some sid \<Rightarrow> Some sid)"
  using executeTask_session[of "lt_id task" "taskStarted now (lt_id task) (lt_identifier task) (lt_title task) w" a run now fin task]
  by (simp add: handleTask_def Let_def split_beta stored_taskCompleted stored_taskStarted
      split: option.splits)

lemma handleRetry_session:
  "stored_session_id (lt_id (rj_task d)) (snd (handleRetry a run now fin am at d w)) =
     (case last_option (stream_sessions (ar_messages run)) of
        None \<Rightarrow> stored_session_id (lt_id (rj_task d)) w
      | Some sid \<Rightarrow> Some sid)"
  using executeFeedback_session[of "lt_id (rj_task d)"
      "snd (on_linear (addComment now (lt_id (rj_task d)) (emoji_cycle @ '' Retrying task execution...''))
         (taskStarted now (lt_id (rj_task d)) (lt_identifier (rj_task d)) (''[Retry] '' @ lt_title (rj_task d)) w))"
      a run now fin "rj_task d" retryPrompt "rj_sessionId d"]
  by (simp add: handleRetry_def Let_def split_beta stored_taskCompleted stored_taskStarted
      split: option.splits)

lemma handleFeedback_session:
  "stored_session_id (lt_id (fj_task d)) (snd (handleFeedback a run th dberr now fin am at d w)) =
     (case last_option (stream_sessions (ar_messages run)) of
        None \<Rightarrow> stored_session_id (lt_id (fj_task d)) w
      | Some sid \<Rightarrow> Some sid)"
  using executeFeedback_session[of "lt_id (fj_task d)"
      "snd (on_linear (addComment now (lt_id (fj_task d)) (emoji_cycle @ '' Processing your feedback...''))
        (snd (on_linear (updateStatus (lt_id (fj_task d)) IN_PROGRESS)
         (taskStarted now (lt_id (fj_task d)) (lt_identifier (fj_task d)) (''[Feedback] '' @ lt_title (fj_task d)) w))))"
      a run now fin "fj_task d" "fj_feedback d" "fj_sessionId d"]
  by (simp add: handleFeedback_def Let_def split_beta stored_taskCompleted stored_taskStarted
      stored_store_update markCommentsProcessed_sessions split: option.splits)

lemma process_job_session:
  "stored_session_id (lt_id (job_task (snd j))) (snd (process_job j w)) =
     (case last_option (stream_sessions (ar_messages (rc_run (fst j)))) of
        None \<Rightarrow> stored_session_id (lt_id (job_task (snd j))) w
      | Some sid \<Rightarrow> Some sid)"
proof -
  obtain c d where j: "j = (c, d)" by (cases j)
  show ?thesis
    unfolding j
    by (cases d)
       (simp_all add: process_job_def job_task_def handleTask_session handleFeedback_session
          handleRetry_session split: option.splits)
qed

text \<open>
  Claim C5. After any number of execute, feedback and retry jobs run one after the other
  on the same work item, the stored \<open>session_id\<close> is the last session id the agent
  reported in the most recent run that reported one; when no run reported one, it is what
  it was before: starting a run, which upserts the row, does not clear it.
\<close>

theorem session_of_most_recent_run:
  assumes "list_all (\<lambda>j. lt_id (job_task (snd j)) = taskId) js"
  shows "stored_session_id taskId (process_jobs js w) =
           (case last_option
                   (concat (map (\<lambda>j. stream_sessions (ar_messages (rc_run (fst j)))) js)) of
              None \<Rightarrow> stored_session_id taskId w
            | Some sid \<Rightarrow> Some sid)"
  using assms
proof (induction js arbitrary: w)
  case Nil
  then show ?case by (simp add: process_jobs_def last_option_def)
next
  case (Cons j js)
  then have j: "lt_id (job_task (snd j)) = taskId"
    and js: "list_all (\<lambda>j. lt_id (job_task (snd j)) = taskId) js"
    by simp_all
  have "process_jobs (j # js) w = process_jobs js (snd (process_job j w))"
    by (simp add: process_jobs_def)
  then show ?case
    using Cons.IH[OF js, of "snd (process_job j w)"] process_job_session[of j w] j
    by (auto simp: last_option_def split: option.splits if_splits)
qed


theorem session_of_most_recent_run_witness:
  "stored_session_id ''i2'' (process_jobs typo_jobs typo_world) = Some ''sess-1''"
proof -
  have same: "list_all (\<lambda>j. lt_id (job_task (snd j)) = ''i2'') typo_jobs"
    by (simp add: typo_jobs_def job_task_def typo_feedback_def example_task_def)
  have last: "last_option
                (concat (map (\<lambda>j. stream_sessions (ar_messages (rc_run (fst j)))) typo_jobs)) =
              Some ''sess-1''"
    by (simp add: typo_jobs_def example_ctx_def run_ok_def run_reports_failure_def
        run_silent_def last_option_def)
  show ?thesis
    using session_of_most_recent_run [OF same, of typo_world] last by simp
qed


section \<open>Claiming a task\<close>

lemma ensureClient_configured: "isConfigured L \<Longrightarrow> ensureClient L = (True, L)"
  by (simp add: ensureClient_def)

lemma list_ex_map_same: "(\<And>x. P (f x) = P x) \<Longrightarrow> list_ex P (map f xs) = list_ex P xs"
  by (induction xs) auto

lemma has_issue_updateIssue:
  "updateIssue j sid L = Some L' \<Longrightarrow> has_issue i L' = has_issue i L"
  by (auto simp: updateIssue_def has_issue_def list_ex_map_same split: if_splits)

lemma updateIssue_service:
  "updateIssue j sid L = Some L' \<Longrightarrow>
   isConfigured L' = isConfigured L \<and> stateCache L' = stateCache L"
  by (auto simp: updateIssue_def split: if_splits)

text \<open>
  On a configured service that has the In Progress state cached, \<open>lockTask\<close> on an
  existing issue returns \<open>true\<close> whatever state the issue is in, and can be repeated.
\<close>

lemma lockTask_ignores_state:
  assumes "isConfigured L" "stateCache L IN_PROGRESS = Some sid" "has_issue i L"
  shows "\<exists>L'. lockTask i L = (True, L') \<and> isConfigured L' \<and>
           stateCache L' IN_PROGRESS = Some sid \<and> has_issue i L'"
proof -
  obtain L' where u: "updateIssue i sid L = Some L'"
    using assms(3) by (simp add: updateIssue_def)
  then have "lockTask i L = (True, L')"
    using assms by (simp add: lockTask_def ensureClient_configured getStateId_def)
  moreover have "isConfigured L'" "stateCache L' IN_PROGRESS = Some sid" "has_issue i L'"
    using updateIssue_service[OF u] has_issue_updateIssue[OF u] assms by simp_all
  ultimately show ?thesis by blast
qed

text \<open>
  Claim C1 fails on the code. \<open>lockTask\<close> sets the In Progress state without reading the
  issue's state, so it succeeds on an issue that is already In Progress: of two actors
  that both saw the "Write changelog" issue in Todo, both lock it, and two \<open>execute\<close>
  jobs for the same issue are in the queue.
\<close>

theorem double_claim:
  "(let (first, w1) = claim_task 0 changelog_task changelog_world;
        (second, w2) = claim_task 1 changelog_task w1
    in first \<and> issue_in_status ''i1'' IN_PROGRESS (linearService w1) \<and> second \<and>
       map job_name (taskQueue w2) = [''execute'', ''execute''] \<and>
       map job_payload (taskQueue w2) =
         [ExecuteData changelog_task, ExecuteData changelog_task])"
  by code_simp


section \<open>Feedback jobs\<close>

text \<open>
  Claim C3 fails on the code. The comments the system posts through \<open>addComment\<close> do not
  start with the marker the review poller filters on. On a tracker without any comment,
  after the poller has claimed "Write changelog" and the execute job has succeeded, the
  issue is In Review with three comments, all posted by the system; the next review poll
  puts all three into a feedback job.
\<close>

theorem system_comments_become_feedback:
  "(let w1 = pollTasks 0 changelog_world;
        w2 = snd (handleTask ApiKey run_ok 10 1000 0 3 changelog_task w1);
        w3 = pollReviewTasks w2
    in comments (linearService changelog_world) = [] \<and>
       map (c_id \<circ> sc_comment) (comments (linearService w2)) =
         [''comment-0'', ''comment-1'', ''comment-2''] \<and>
       list_all (\<lambda>c. c_user (sc_comment c) = Some (api_user (linearService w2)) \<and>
                      \<not> startsWith (c_body (sc_comment c)) system_marker)
         (comments (linearService w2)) \<and>
       map fj_commentIds (feedback_jobs w3) = [[''comment-1'', ''comment-2'', ''comment-0'']] \<and>
       list_all (\<lambda>d. includes_str (fj_feedback d) ''Task received by system'' \<and>
                      includes_str (fj_feedback d) ''awaiting human review'')
         (feedback_jobs w3))"
  by code_simp


lemma run_inserts_None:
  "run_inserts th now tid ids led = None \<longleftrightarrow> list_ex th ids"
  by (induction ids arbitrary: led) auto

lemma process_block_text:
  "responseText (fst (process_block cb t b vw)) = responseText (fst vw) @ block_text b"
  by (cases vw; cases b) (simp_all add: process_block_def block_text_def Let_def)

lemma blocks_text:
  "responseText (fst (fold (process_block cb t) bs vw)) =
     responseText (fst vw) @ concat (map block_text bs)"
  by (induction bs arbitrary: vw) (simp_all add: process_block_text)

lemma processMessage_text:
  "responseText (fst (processMessage cb t m vw)) = responseText (fst vw) @ message_text m"
proof (cases vw)
  case (Pair v w)
  show ?thesis
  proof (cases m)
    case (AssistantMsg bs)
    then show ?thesis
      using blocks_text[of cb t _ "(v, w)"]
      by (simp add: processMessage_def Pair message_text_def split: option.splits)
  next
    case (SystemMsg init sid)
    then show ?thesis
      by (simp add: processMessage_def Pair message_text_def split: option.splits bool.splits)
  qed (simp_all add: processMessage_def Pair message_text_def)
qed

lemma run_stream_text:
  "responseText (fst (run_stream cb t ms w)) = agent_text ms"
proof -
  have "responseText (fst (fold (processMessage cb t) ms vw)) =
          responseText (fst vw) @ agent_text ms" for vw
    by (induction ms arbitrary: vw) (simp_all add: processMessage_text agent_text_def)
  then show ?thesis by (simp add: run_stream_def)
qed


lemma executeTask_success:
  "r_success (fst (executeTask a run now fin task cb w)) = run_succeeds run"
  using run_stream_text[of cb fin "ar_messages run"
          "onProgress cb now (emoji_rocket @ '' Starting task execution'') 10 w"]
  by (simp add: executeTask_def run_succeeds_def Let_def split_beta split: option.splits)




lemma insert_or_ignore_dom: "dom (insert_or_ignore now c tid led) = insert c (dom led)"
  by (auto simp: insert_or_ignore_def split: option.splits)

lemma insert_or_ignore_old:
  "led c' = Some r \<Longrightarrow> insert_or_ignore now c tid led c' = Some r"
  by (auto simp: insert_or_ignore_def split: option.splits)

lemma run_inserts_dom:
  "run_inserts th now tid ids led = Some led' \<Longrightarrow> dom led' = dom led \<union> set ids"
  by (induction ids arbitrary: led) (auto simp: insert_or_ignore_dom split: if_splits)

lemma run_inserts_old:
  "run_inserts th now tid ids led = Some led' \<Longrightarrow> led c = Some r \<Longrightarrow> led' c = Some r"
  by (induction ids arbitrary: led) (auto simp: insert_or_ignore_old split: if_splits)

lemma handleFeedback_ledger:
  "processed_comments (sessionStore
     (snd (handleFeedback a run th dberr now fin am at data w))) =
     (case run_inserts th fin (lt_id (fj_task data)) (fj_commentIds data)
             (processed_comments (sessionStore w)) of
        None \<Rightarrow> processed_comments (sessionStore w)
      | Some led \<Rightarrow> led)"
  by (simp add: handleFeedback_def Let_def split_beta markCommentsProcessed_def
      executeFeedback_ledger report_failure_ledger split: option.splits)

text \<open>
  Claim C4 as stated fails: a feedback job whose run reports failure throws, and the
  supplied comment id, absent from the ledger before, is in it afterwards.
\<close>

theorem failed_run_marks_comments:
  "(let (r, w) = handleFeedback ApiKey run_reports_failure (\<lambda>_. False) ''database error''
                   0 1000 0 3 typo_feedback typo_world
    in r = Inl (emoji_cross @ '' the build failed'') \<and>
       \<not> isCommentProcessed ''c-human-1'' (sessionStore typo_world) \<and>
       isCommentProcessed ''c-human-1'' (sessionStore w))"
  by code_simp

text \<open>
  Claim C4, amended. Whatever the agent run does, succeed or report failure, a feedback
  job marks the supplied comment ids, and the marking is all or nothing: when a
  statement of the transaction throws the ledger is as before; otherwise the ledger's
  keys are the old ones and every supplied id, and the old rows are unchanged.
\<close>

theorem feedback_marks_whatever_outcome:
  "(let before = processed_comments (sessionStore w);
        after = processed_comments (sessionStore
                  (snd (handleFeedback a run stmt_throws db_error now fin am at data w)))
    in if list_ex stmt_throws (fj_commentIds data)
       then after = before
       else dom after = dom before \<union> set (fj_commentIds data) \<and>
            after |` dom before = before)"
proof (cases "run_inserts stmt_throws fin (lt_id (fj_task data)) (fj_commentIds data)
                (processed_comments (sessionStore w))")
  case None
  then show ?thesis
    using run_inserts_None[of stmt_throws fin "lt_id (fj_task data)" "fj_commentIds data"
            "processed_comments (sessionStore w)"]
    by (simp add: handleFeedback_ledger Let_def)
next
  case (Some led)
  then have no_throw: "\<not> list_ex stmt_throws (fj_commentIds data)"
    using run_inserts_None[of stmt_throws fin "lt_id (fj_task data)" "fj_commentIds data"
            "processed_comments (sessionStore w)"]
    by simp
  have "led |` dom (processed_comments (sessionStore w)) = processed_comments (sessionStore w)"
  proof
    fix c
    show "(led |` dom (processed_comments (sessionStore w))) c =
            processed_comments (sessionStore w) c"
      using run_inserts_old[OF Some, of c]
      by (cases "processed_comments (sessionStore w) c") (auto simp: restrict_map_def)
  qed
  then show ?thesis
    using run_inserts_dom[OF Some] no_throw
    by (simp add: handleFeedback_ledger Let_def Some)
qed


section \<open>The backoff schedule\<close>

text \<open>
  Claim C6. With the options the source passes to the queue (3 attempts, exponential
  backoff, base delay 5000 ms) and the retry policy of the spec, the delay after the
  \<open>k\<close>-th failed attempt is \<open>5000 * 2^(k-1)\<close>; a job that fails on every attempt is retried
  after 5000 ms and after 10000 ms, 15000 ms in all, and is then terminally failed.
\<close>

theorem backoff_schedule:
  "attempts (default_job_opts tmo) = 3 \<and>
   backoff_delay (default_job_opts tmo) = 5000 \<and>
   retry_delay (default_job_opts tmo) k = 5000 * 2 ^ (k - 1) \<and>
   queue_run (default_job_opts tmo) 1 [True, True, True] = ([5000, 10000], JobTerminallyFailed) \<and>
   sum_list (fst (queue_run (default_job_opts tmo) 1 [True, True, True])) = 15000"
  by (simp add: default_job_opts_def retry_delay_def)

end
